theory Spec2Isabelle
  imports Complex_Main
begin

section \<open>Numbers and library functions of the host language\<close>

text \<open>
  The wind tracker (\<^verbatim>\<open>src/hooks/useWindTracker.ts\<close>) computes with JavaScript numbers.
  They are modelled as exact reals: rounding errors of IEEE doubles are not part of the
  model. The one place of the tracker where a division can have a zero divisor
  (\<^verbatim>\<open>slope\<close>) returns a \<open>jsnum\<close>, which has the non-finite values that
  JavaScript produces there.

  \<^verbatim>\<open>Math.round\<close> rounds to the nearest integer, a tie going up.
  \<^verbatim>\<open>x.toFixed(d)\<close> writes the decimal with \<open>d\<close> digits nearest to \<open>x\<close>, a tie
  going away from zero; \<^verbatim>\<open>Number\<close> reads the string back.
\<close>

definition Math_round :: "real \<Rightarrow> int" where
  "Math_round x = \<lfloor>x + 1 / 2\<rfloor>"

definition toFixed :: "nat \<Rightarrow> real \<Rightarrow> real" where
  "toFixed d x = sgn x * real_of_int \<lfloor>\<bar>x\<bar> * 10 ^ d + 1 / 2\<rfloor> / 10 ^ d"

text \<open>
  \<^verbatim>\<open>function clamp(n, min, max) { return Math.min(max, Math.max(min, n)); }\<close>
\<close>

definition clamp :: "real \<Rightarrow> real \<Rightarrow> real \<Rightarrow> real" where
  "clamp n lo hi = min hi (max lo n)"

section \<open>Data model\<close>

text \<open>
  \<^verbatim>\<open>WindPayload\<close> and its \<^verbatim>\<open>wind\<close> block. The field \<^verbatim>\<open>min\<close> of the source is
  \<open>min_wind\<close> here, and the fields of a \<^verbatim>\<open>HistoricPoint\<close> carry the prefix \<open>h\<close>
  (\<^verbatim>\<open>speed\<close> and \<^verbatim>\<open>gust\<close> are already fields of the wind block).
\<close>

record Wind =
  speed :: real
  gust :: real
  min_wind :: real
  unit :: string
  direction :: real

record WindPayload =
  stationId :: nat
  stationName :: string
  dateTime :: string
  wind :: Wind
  humidity :: "real option"
  pressure :: "real option"
  rain :: "real option"
  temperature :: "real option"

record HistoricPoint =
  t :: string
  hspeed :: real
  hgust :: real

section \<open>Propagation estimate\<close>

text \<open>
  \<^verbatim>\<open>
  const distanceKm = 25; // approx.
  const etaMinutes = useMemo(() => {
    const spd = drobak?.wind.speed ?? 0;
    if (!isBuildingAtDrobak || spd <= 0.5) return null;
    const frontKmh = clamp(10 + spd * 1.5, 8, 45);
    return Math.round((distanceKm / frontKmh) * 60);
  }, [drobak, isBuildingAtDrobak]);
  \<close>
  The reading \<open>drobak\<close> is \<open>None\<close> while the tracker has no entry for the station; the
  result \<open>None\<close> is the source's \<^verbatim>\<open>null\<close>.
\<close>

definition distanceKm :: real where
  "distanceKm = 25"

definition etaMinutes :: "WindPayload option \<Rightarrow> bool \<Rightarrow> int option" where
  "etaMinutes drobak isBuildingAtDrobak =
     (let spd = (case drobak of None \<Rightarrow> 0 | Some d \<Rightarrow> speed (wind d))
      in if \<not> isBuildingAtDrobak \<or> spd \<le> 0.5 then None
         else let frontKmh = clamp (10 + spd * 1.5) 8 45
              in Some (Math_round ((distanceKm / frontKmh) * 60)))"

section \<open>Gear estimator\<close>

text \<open>
  \<^verbatim>\<open>
  export function recommendGear(weightKg: number, windMs: number) {
    const sail = clamp(12 - 0.45 * windMs - 0.012 * (weightKg - 75), 4.0, 9.8);
    const boardWidth = clamp(112 - 3.2 * windMs - 0.12 * (weightKg - 75), 58, 100);
    const fin = clamp(54 - 2.2 * windMs, 28, 52);
    const round = (n: number, step = 0.2) => Math.round(n / step) * step;
    const roundInt = (n: number, step = 1) => Math.round(n / step) * step;
    return {
      sailM2: Number(round(sail, 0.2).toFixed(1)),
      boardWidthCm: roundInt(boardWidth, 1),
      finCm: roundInt(fin, 1),
    } as const;
  }
  \<close>
  The two local rounding functions have the same body; they are \<open>round_step\<close> and
  \<open>roundInt\<close>.
\<close>

record Gear =
  sailM2 :: real
  boardWidthCm :: real
  finCm :: real

definition round_step :: "real \<Rightarrow> real \<Rightarrow> real" where
  "round_step n step = real_of_int (Math_round (n / step)) * step"

definition roundInt :: "real \<Rightarrow> real \<Rightarrow> real" where
  "roundInt n step = real_of_int (Math_round (n / step)) * step"

definition recommendGear :: "real \<Rightarrow> real \<Rightarrow> Gear" where
  "recommendGear weightKg windMs =
     (let sail = clamp (12 - 0.45 * windMs - 0.012 * (weightKg - 75)) 4.0 9.8;
          boardWidth = clamp (112 - 3.2 * windMs - 0.12 * (weightKg - 75)) 58 100;
          fin = clamp (54 - 2.2 * windMs) 28 52
      in \<lparr> sailM2 = toFixed 1 (round_step sail 0.2),
           boardWidthCm = roundInt boardWidth 1,
           finCm = roundInt fin 1 \<rparr>)"

section \<open>Stations, randomness and time\<close>

text \<open>
  \<^verbatim>\<open>
  export const STATIONS = {
    drobak: { id: 101, name: "Dr\<oslash>bak" },
    lysaker: { id: 201, name: "Lysaker" },
  } as const;
  \<close>
\<close>

datatype station = drobak | lysaker

fun STATIONS_id :: "station \<Rightarrow> nat" where
  "STATIONS_id drobak = 101"
| "STATIONS_id lysaker = 201"

fun STATIONS_name :: "station \<Rightarrow> string" where
  "STATIONS_name drobak = ''Dr'' @ [CHR 0xF8] @ ''bak''"
| "STATIONS_name lysaker = ''Lysaker''"

text \<open>
  The simulator reads two sources outside the program: \<^verbatim>\<open>Math.random()\<close> and the
  wall clock (\<^verbatim>\<open>new Date()\<close>). Both are streams of the values that the successive
  calls return; a call takes the head and leaves the rest. A draw of
  \<^verbatim>\<open>Math.random()\<close> lies in \<open>[0, 1)\<close>: theorems that need it assume \<open>fair_rand\<close>.
  Times are milliseconds since the epoch. \<^verbatim>\<open>formatISO\<close> of date-fns is not part of
  the repository: it is a parameter of every function that prints a time.
\<close>

record runtime =
  rand :: "nat \<Rightarrow> real"
  clock :: "nat \<Rightarrow> int"

definition fair_rand :: "runtime \<Rightarrow> bool" where
  "fair_rand rt = (\<forall>n. 0 \<le> rand rt n \<and> rand rt n < 1)"

definition Math_random :: "runtime \<Rightarrow> real \<times> runtime" where
  "Math_random rt = (rand rt 0, rt\<lparr>rand := \<lambda>n. rand rt (Suc n)\<rparr>)"

definition new_Date :: "runtime \<Rightarrow> int \<times> runtime" where
  "new_Date rt = (clock rt 0, rt\<lparr>clock := \<lambda>n. clock rt (Suc n)\<rparr>)"

text \<open>
  \<^verbatim>\<open>function randBetween(min, max) { return Math.random() * (max - min) + min; }\<close>
\<close>

definition randBetween :: "real \<Rightarrow> real \<Rightarrow> runtime \<Rightarrow> real \<times> runtime" where
  "randBetween lo hi rt = (case Math_random rt of (r, rt') \<Rightarrow> (r * (hi - lo) + lo, rt'))"

section \<open>Simulator\<close>

text \<open>
  \<^verbatim>\<open>
  function simulateCurrent(station, prev?: WindPayload): WindPayload {
    const baseSpeed = station === "drobak" ? 5 : 3;
    const drift = station === "drobak" ? randBetween(-0.3, 0.9) : randBetween(-0.4, 0.6);
    const prevSpeed = prev?.wind.speed ?? baseSpeed + randBetween(-1, 1);
    const speed = clamp(prevSpeed + drift, 0, 20);
    const gust = clamp(speed + randBetween(0.2, 2.5), speed, speed + 4);
    const min = clamp(speed - randBetween(0.1, 1), 0, speed);
    const direction = station === "drobak" ? 190 + randBetween(-20, 20) : 200 + randBetween(-25, 25);
    const now = new Date();
    return {
      stationId: STATIONS[station].id,
      stationName: STATIONS[station].name,
      dateTime: formatISO(now),
      wind: { speed, gust, min, unit: "m/s", direction },
      humidity: 60 + randBetween(-15, 15),
      pressure: 1015 + randBetween(-8, 8),
      rain: randBetween(0, 0.2),
      temperature: 12 + randBetween(-2, 8),
    };
  }
  \<close>
  The draw for \<^verbatim>\<open>prevSpeed\<close> is made only when there is no previous reading
  (\<^verbatim>\<open>??\<close> evaluates its right side only then).
\<close>

definition simulateCurrent ::
  "(int \<Rightarrow> string) \<Rightarrow> station \<Rightarrow> WindPayload option \<Rightarrow> runtime \<Rightarrow> WindPayload \<times> runtime" where
  "simulateCurrent formatISO station prev rt0 =
     (let baseSpeed = (if station = drobak then 5 else 3);
          (drift, rt1) = (if station = drobak then randBetween (- 0.3) 0.9 rt0
                          else randBetween (- 0.4) 0.6 rt0);
          (prevSpeed, rt2) =
             (case prev of
                Some p \<Rightarrow> (speed (wind p), rt1)
              | None \<Rightarrow> (case randBetween (- 1) 1 rt1 of (r, rt') \<Rightarrow> (baseSpeed + r, rt')));
          speed' = clamp (prevSpeed + drift) 0 20;
          (g, rt3) = randBetween 0.2 2.5 rt2;
          gust' = clamp (speed' + g) speed' (speed' + 4);
          (m, rt4) = randBetween 0.1 1 rt3;
          min' = clamp (speed' - m) 0 speed';
          (d, rt5) = (if station = drobak then randBetween (- 20) 20 rt4
                      else randBetween (- 25) 25 rt4);
          direction' = (if station = drobak then 190 + d else 200 + d);
          (now, rt6) = new_Date rt5;
          (hu, rt7) = randBetween (- 15) 15 rt6;
          (pr, rt8) = randBetween (- 8) 8 rt7;
          (ra, rt9) = randBetween 0 0.2 rt8;
          (te, rt10) = randBetween (- 2) 8 rt9
      in (\<lparr> stationId = STATIONS_id station,
             stationName = STATIONS_name station,
             dateTime = formatISO now,
             wind = \<lparr> speed = speed', gust = gust', min_wind = min',
                      unit = ''m/s'', direction = direction' \<rparr>,
             humidity = Some (60 + hu),
             pressure = Some (1015 + pr),
             rain = Some ra,
             temperature = Some (12 + te) \<rparr>, rt10))"

text \<open>
  \<^verbatim>\<open>
  function simulateHistoric(current: WindPayload, minutes = 180): HistoricPoint[] {
    const pts: HistoricPoint[] = [];
    let speed = current.wind.speed;
    let gust = current.wind.gust;
    const now = new Date();
    for (let i = minutes; i >= 0; i -= 5) {
      speed = clamp(speed + randBetween(-0.5, 0.6), 0, 22);
      gust = clamp(Math.max(gust, speed) + randBetween(-0.4, 0.9), speed, speed + 5);
      const t = new Date(now.getTime() - i * 60_000);
      pts.push({ t: formatISO(t), speed: Number(speed.toFixed(2)), gust: Number(gust.toFixed(2)) });
    }
    return pts;
  }
  \<close>
  \<open>simulateHistoric_loop\<close> is the \<^verbatim>\<open>for\<close> loop from the counter \<open>i\<close> on; it returns
  the points pushed from there on, in the order of the pushes. The window \<open>minutes\<close> is
  an integer.
\<close>

function simulateHistoric_loop ::
  "(int \<Rightarrow> string) \<Rightarrow> int \<Rightarrow> int \<Rightarrow> real \<Rightarrow> real \<Rightarrow> runtime \<Rightarrow> HistoricPoint list \<times> runtime" where
  "simulateHistoric_loop formatISO now i speed0 gust0 rt =
     (if i \<ge> 0 then
        (let (r1, rt1) = randBetween (- 0.5) 0.6 rt;
             speed' = clamp (speed0 + r1) 0 22;
             (r2, rt2) = randBetween (- 0.4) 0.9 rt1;
             gust' = clamp (max gust0 speed' + r2) speed' (speed' + 5);
             t' = now - i * 60000;
             p = \<lparr> t = formatISO t', hspeed = toFixed 2 speed', hgust = toFixed 2 gust' \<rparr>;
             (pts, rt3) = simulateHistoric_loop formatISO now (i - 5) speed' gust' rt2
         in (p # pts, rt3))
      else ([], rt))"
  by pat_completeness auto
termination
  by (relation "measure (\<lambda>(f, now, i, s, g, rt). nat (i + 1))") auto

definition simulateHistoric ::
  "(int \<Rightarrow> string) \<Rightarrow> WindPayload \<Rightarrow> int \<Rightarrow> runtime \<Rightarrow> HistoricPoint list \<times> runtime" where
  "simulateHistoric formatISO current' minutes rt0 =
     (let speed0 = speed (wind current');
          gust0 = gust (wind current');
          (now, rt1) = new_Date rt0
      in simulateHistoric_loop formatISO now minutes speed0 gust0 rt1)"

section \<open>Fetcher\<close>

text \<open>
  \<^verbatim>\<open>
  function toISO(dateTime: string) {
    if (dateTime.includes("T")) return dateTime;
    return dateTime.replace(" ", "T");
  }
  \<close>
  \<^verbatim>\<open>replace\<close> with a string pattern replaces the first occurrence only.
\<close>

fun replace_first :: "char \<Rightarrow> char \<Rightarrow> string \<Rightarrow> string" where
  "replace_first a b [] = []"
| "replace_first a b (c # cs) = (if c = a then b # cs else c # replace_first a b cs)"

definition toISO :: "string \<Rightarrow> string" where
  "toISO dateTime' =
     (if CHR ''T'' \<in> set dateTime' then dateTime'
      else replace_first CHR '' '' CHR ''T'' dateTime')"

text \<open>
  \<^verbatim>\<open>
  async function fetchJSON<T>(url: string, timeoutMs = 8000): Promise<T> {
    const controller = new AbortController();
    const timeout = setTimeout(() => controller.abort(), timeoutMs);
    try {
      const res = await fetch(url, { signal: controller.signal });
      if (!res.ok) throw new Error(`HTTP ${res.status}`);
      return (await res.json()) as T;
    } finally {
      clearTimeout(timeout);
    }
  }
  \<close>
  What the network does with a request is an input of the model: the request is
  aborted by the timer, it fails before a response arrives, or a response arrives with
  a status and a body (\<open>None\<close> when the body is not JSON). A body that parses is taken
  to have the type the caller asks for, as the cast of the source does. The promise of
  the source is a value of \<open>js_error + 'a\<close>: \<open>Inl\<close> when it rejects.
\<close>

datatype js_error = AbortError | NetworkError | HttpError nat | SyntaxError | TypeError

datatype 'a response = TimedOut | Unreachable | Reply nat "'a option"

definition fetchJSON :: "'a response \<Rightarrow> js_error + 'a" where
  "fetchJSON r =
     (case r of
        TimedOut \<Rightarrow> Inl AbortError
      | Unreachable \<Rightarrow> Inl NetworkError
      | Reply status body \<Rightarrow>
          if \<not> (200 \<le> status \<and> status \<le> 299) then Inl (HttpError status)
          else (case body of None \<Rightarrow> Inl SyntaxError | Some v \<Rightarrow> Inr v))"

section \<open>Tracker\<close>

text \<open>
  The two pieces of React state of \<^verbatim>\<open>useWindTracker\<close>, records keyed by station id:
  \<^verbatim>\<open>
  const [current, setCurrent] = useState<Record<number, WindPayload>>({});
  const [historic, setHistoric] = useState<Record<number, HistoricPoint[]>>({});
  \<close>
\<close>

record tracker =
  current :: "nat \<rightharpoonup> WindPayload"
  historic :: "nat \<rightharpoonup> HistoricPoint list"

text \<open>
  The responses of the API to the two requests that a cycle makes for a station, by
  station id (the URLs are built from \<^verbatim>\<open>baseUrl\<close> and the id).
\<close>

record network =
  currentReply :: "nat \<Rightarrow> WindPayload response"
  historicReply :: "nat \<Rightarrow> HistoricPoint list response"

text \<open>
  \<^verbatim>\<open>
  const fetchAll = async () => {
    const stations: (keyof typeof STATIONS)[] = ["drobak", "lysaker"];
    const nextCurrent: Record<number, WindPayload> = { ...current };
    const nextHistoric: Record<number, HistoricPoint[]> = { ...historic };
    for (const key of stations) {
      const id = STATIONS[key].id;
      try {
        if (baseUrl) {
          const payload = await fetchJSON<WindPayload>(`.../current?stationId=${id}`);
          payload.dateTime = toISO(payload.dateTime);
          nextCurrent[id] = payload;
        } else {
          nextCurrent[id] = simulateCurrent(key, current[id]);
        }
      } catch {
        nextCurrent[id] = simulateCurrent(key, current[id]);
      }
      try {
        if (baseUrl) {
          nextHistoric[id] = await fetchJSON<HistoricPoint[]>(`.../historic?stationId=${id}&hours=6`);
        } else {
          nextHistoric[id] = simulateHistoric(nextCurrent[id]);
        }
      } catch {
        nextHistoric[id] = simulateHistoric(nextCurrent[id]);
      }
    }
    setCurrent(nextCurrent);
    setHistoric(nextHistoric);
  };
  \<close>
  (The two URL templates are shortened here: both start with \<^verbatim>\<open>baseUrl\<close> without a
  trailing slash.)
  \<open>fetchAll\<close> is a closure: \<^verbatim>\<open>current\<close>, \<^verbatim>\<open>historic\<close> and \<^verbatim>\<open>baseUrl\<close> are the values
  of the render that created it. They are the parameters \<open>captured\<close> and \<open>baseUrl\<close>.
  A \<^verbatim>\<open>baseUrl\<close> that is undefined or empty is falsy. The result is the state that
  \<^verbatim>\<open>setCurrent\<close> and \<^verbatim>\<open>setHistoric\<close> store, or \<open>Inl\<close> when an exception leaves the
  function. \<^verbatim>\<open>simulateHistoric(nextCurrent[id])\<close> reads \<^verbatim>\<open>current.wind\<close>, a
  \<^verbatim>\<open>TypeError\<close> when \<^verbatim>\<open>nextCurrent[id]\<close> is undefined.
\<close>

definition truthy :: "string option \<Rightarrow> bool" where
  "truthy baseUrl = (case baseUrl of None \<Rightarrow> False | Some u \<Rightarrow> u \<noteq> [])"

definition resolveCurrent ::
  "(int \<Rightarrow> string) \<Rightarrow> string option \<Rightarrow> network \<Rightarrow> tracker \<Rightarrow> station \<Rightarrow> runtime
     \<Rightarrow> WindPayload \<times> runtime" where
  "resolveCurrent formatISO baseUrl net captured key rt =
     (let id = STATIONS_id key;
          attempt =
            (if truthy baseUrl then
               (case fetchJSON (currentReply net id) of
                  Inl e \<Rightarrow> Inl e
                | Inr payload \<Rightarrow> Inr (payload\<lparr>dateTime := toISO (dateTime payload)\<rparr>, rt))
             else Inr (simulateCurrent formatISO key (current captured id) rt))
      in case attempt of
           Inr v \<Rightarrow> v
         | Inl e \<Rightarrow> simulateCurrent formatISO key (current captured id) rt)"

definition simulateHistoric_of ::
  "(int \<Rightarrow> string) \<Rightarrow> WindPayload option \<Rightarrow> runtime \<Rightarrow> js_error + HistoricPoint list \<times> runtime" where
  "simulateHistoric_of formatISO entry rt =
     (case entry of
        None \<Rightarrow> Inl TypeError
      | Some p \<Rightarrow> Inr (simulateHistoric formatISO p 180 rt))"

definition resolveHistoric ::
  "(int \<Rightarrow> string) \<Rightarrow> string option \<Rightarrow> network \<Rightarrow> (nat \<rightharpoonup> WindPayload) \<Rightarrow> station \<Rightarrow> runtime
     \<Rightarrow> js_error + HistoricPoint list \<times> runtime" where
  "resolveHistoric formatISO baseUrl net nextCurrent key rt =
     (let id = STATIONS_id key;
          attempt =
            (if truthy baseUrl then
               (case fetchJSON (historicReply net id) of
                  Inl e \<Rightarrow> Inl e
                | Inr pts \<Rightarrow> Inr (pts, rt))
             else simulateHistoric_of formatISO (nextCurrent id) rt)
      in case attempt of
           Inr v \<Rightarrow> Inr v
         | Inl e \<Rightarrow> simulateHistoric_of formatISO (nextCurrent id) rt)"

definition fetchAll_station ::
  "(int \<Rightarrow> string) \<Rightarrow> string option \<Rightarrow> network \<Rightarrow> tracker \<Rightarrow> station
     \<Rightarrow> tracker \<times> runtime \<Rightarrow> js_error + tracker \<times> runtime" where
  "fetchAll_station formatISO baseUrl net captured key acc =
     (let (next, rt) = acc;
          id = STATIONS_id key;
          (payload, rt1) = resolveCurrent formatISO baseUrl net captured key rt;
          nextCurrent = (current next)(id \<mapsto> payload)
      in case resolveHistoric formatISO baseUrl net nextCurrent key rt1 of
           Inl e \<Rightarrow> Inl e
         | Inr (pts, rt2) \<Rightarrow>
             Inr (\<lparr> current = nextCurrent, historic = (historic next)(id \<mapsto> pts) \<rparr>, rt2))"

definition fetchAll ::
  "(int \<Rightarrow> string) \<Rightarrow> string option \<Rightarrow> network \<Rightarrow> tracker \<Rightarrow> runtime
     \<Rightarrow> js_error + tracker \<times> runtime" where
  "fetchAll formatISO baseUrl net captured rt =
     (case fetchAll_station formatISO baseUrl net captured drobak (captured, rt) of
        Inl e \<Rightarrow> Inl e
      | Inr acc \<Rightarrow> fetchAll_station formatISO baseUrl net captured lysaker acc)"

text \<open>
  The polling effect:
  \<^verbatim>\<open>
  useEffect(() => {
    fetchAll();
    const t = setInterval(fetchAll, pollIntervalMs);
    return () => clearInterval(t);
    // eslint-disable-next-line react-hooks/exhaustive-deps
  }, [baseUrl, pollIntervalMs]);
  \<close>
  The effect runs after the first render and again only when \<^verbatim>\<open>baseUrl\<close> or
  \<^verbatim>\<open>pollIntervalMs\<close> change. Every render creates a new \<^verbatim>\<open>fetchAll\<close>, but the timer
  keeps the one of the render in which the effect ran. A hook is therefore the state
  of the latest render (\<open>shown\<close>) and the state that the registered \<^verbatim>\<open>fetchAll\<close>
  closes over (\<open>closed_over\<close>). \<open>mount\<close> is the hook when the effect first runs,
  \<open>poll\<close> is one call of the registered \<^verbatim>\<open>fetchAll\<close> (the call in the effect or a
  tick of the timer), and \<open>rerun_effect\<close> is the effect running again after a change
  of its dependencies.
\<close>

record hook =
  shown :: tracker
  closed_over :: tracker

definition mount :: hook where
  "mount = \<lparr> shown = \<lparr> current = Map.empty, historic = Map.empty \<rparr>,
             closed_over = \<lparr> current = Map.empty, historic = Map.empty \<rparr> \<rparr>"

definition poll ::
  "(int \<Rightarrow> string) \<Rightarrow> string option \<Rightarrow> network \<Rightarrow> hook \<times> runtime \<Rightarrow> js_error + hook \<times> runtime" where
  "poll formatISO baseUrl net hr =
     (case fetchAll formatISO baseUrl net (closed_over (fst hr)) (snd hr) of
        Inl e \<Rightarrow> Inl e
      | Inr (next, rt') \<Rightarrow> Inr ((fst hr)\<lparr>shown := next\<rparr>, rt'))"

definition rerun_effect :: "hook \<Rightarrow> hook" where
  "rerun_effect h = h\<lparr>closed_over := shown h\<rparr>"

section \<open>Derived signals\<close>

text \<open>
  The result of a division whose divisor can be zero.
\<close>

datatype jsnum = Num real | NaN | PosInfinity | NegInfinity

definition js_div :: "real \<Rightarrow> real \<Rightarrow> jsnum" where
  "js_div a b =
     (if b \<noteq> 0 then Num (a / b)
      else if a = 0 then NaN
      else if 0 < a then PosInfinity else NegInfinity)"

fun js_gt :: "jsnum \<Rightarrow> real \<Rightarrow> bool" where
  "js_gt (Num a) b = (a > b)"
| "js_gt NaN b = False"
| "js_gt PosInfinity b = True"
| "js_gt NegInfinity b = False"

text \<open>
  \<^verbatim>\<open>xs.slice(start)\<close>: a negative start counts from the end; the start is then
  brought into the range of the array. \<^verbatim>\<open>xs.at(i)\<close>: a negative index counts from
  the end; outside the array the result is undefined. \<^verbatim>\<open>xs[i]\<close>: undefined unless
  \<open>i\<close> is an index of the array.
\<close>

definition slice_from :: "int \<Rightarrow> 'a list \<Rightarrow> 'a list" where
  "slice_from start xs =
     (let n = int (length xs);
          k = (if start < 0 then max (n + start) 0 else min start n)
      in drop (nat k) xs)"

definition array_at :: "'a list \<Rightarrow> int \<Rightarrow> 'a option" where
  "array_at xs i =
     (let n = int (length xs);
          k = (if i \<ge> 0 then i else n + i)
      in if k < 0 \<or> k \<ge> n then None else Some (xs ! nat k))"

definition array_get :: "'a list \<Rightarrow> int \<Rightarrow> 'a option" where
  "array_get xs i = (if 0 \<le> i \<and> i < int (length xs) then Some (xs ! nat i) else None)"

text \<open>
  \<^verbatim>\<open>
  function slope(points: HistoricPoint[], lookback = 6) {
    if (!points || points.length < lookback) return 0;
    const tail = points.slice(-lookback);
    const first = tail[0]?.speed ?? 0;
    const last = tail[tail.length - 1]?.speed ?? 0;
    return (last - first) / lookback; // m/s per sample
  }
  \<close>
  An array is never falsy, so \<^verbatim>\<open>!points\<close> is false for every list. The lookback is
  an integer.
\<close>

definition slope :: "HistoricPoint list \<Rightarrow> int \<Rightarrow> jsnum" where
  "slope points lookback =
     (if int (length points) < lookback then Num 0
      else let tail = slice_from (- lookback) points;
               first = (case array_get tail 0 of None \<Rightarrow> 0 | Some p \<Rightarrow> hspeed p);
               last' = (case array_get tail (int (length tail) - 1) of None \<Rightarrow> 0 | Some p \<Rightarrow> hspeed p)
           in js_div (last' - first) (real_of_int lookback))"

text \<open>
  \<^verbatim>\<open>
  const drobak = current[STATIONS.drobak.id];
  const lysaker = current[STATIONS.lysaker.id];
  const drobakHist = historic[STATIONS.drobak.id] || [];
  const lysakerHist = historic[STATIONS.lysaker.id] || [];
  const drobakSlope = useMemo(() => slope(drobakHist), [drobakHist]);
  const lysakerSlope = useMemo(() => slope(lysakerHist), [lysakerHist]);
  const isBuildingAtDrobak = drobak ? drobakSlope > 0.08 && drobak.wind.speed >= 4 : false;
  \<close>
  The names \<open>drobak\<close> and \<open>lysaker\<close> are the station keys here, so the two readings are
  \<open>drobakCurrent\<close> and \<open>lysakerCurrent\<close>.
\<close>

definition drobakCurrent :: "tracker \<Rightarrow> WindPayload option" where
  "drobakCurrent tr = current tr (STATIONS_id drobak)"

definition lysakerCurrent :: "tracker \<Rightarrow> WindPayload option" where
  "lysakerCurrent tr = current tr (STATIONS_id lysaker)"

definition drobakHist :: "tracker \<Rightarrow> HistoricPoint list" where
  "drobakHist tr = (case historic tr (STATIONS_id drobak) of None \<Rightarrow> [] | Some pts \<Rightarrow> pts)"

definition lysakerHist :: "tracker \<Rightarrow> HistoricPoint list" where
  "lysakerHist tr = (case historic tr (STATIONS_id lysaker) of None \<Rightarrow> [] | Some pts \<Rightarrow> pts)"

definition drobakSlope :: "tracker \<Rightarrow> jsnum" where
  "drobakSlope tr = slope (drobakHist tr) 6"

definition lysakerSlope :: "tracker \<Rightarrow> jsnum" where
  "lysakerSlope tr = slope (lysakerHist tr) 6"

definition isBuildingAtDrobak :: "tracker \<Rightarrow> bool" where
  "isBuildingAtDrobak tr =
     (case drobakCurrent tr of
        Some d \<Rightarrow> js_gt (drobakSlope tr) 0.08 \<and> speed (wind d) \<ge> 4
      | None \<Rightarrow> False)"

text \<open>
  The page (\<^verbatim>\<open>WindTracker\<close>) labels the trend of the Lysaker card with
  \<^verbatim>\<open>
  sub={((lysaker?.wind.speed ?? 0) - (lysakerHist.at(-6)?.speed ?? 0)) > 0.08
         ? "Building" : "Stable/Calm"}
  \<close>
\<close>

definition lysakerTrend :: "tracker \<Rightarrow> real" where
  "lysakerTrend tr =
     (case lysakerCurrent tr of None \<Rightarrow> 0 | Some l \<Rightarrow> speed (wind l))
     - (case array_at (lysakerHist tr) (- 6) of None \<Rightarrow> 0 | Some p \<Rightarrow> hspeed p)"

definition lysakerSub :: "tracker \<Rightarrow> string" where
  "lysakerSub tr = (if lysakerTrend tr > 0.08 then ''Building'' else ''Stable/Calm'')"

section \<open>Compass points\<close>

text \<open>
  \<^verbatim>\<open>
  export function degToCardinal(deg?: number) {
    if (deg == null || Number.isNaN(deg)) return "N/A";
    const dirs = ["N", "NNE", "NE", "ENE", "E", "ESE", "SE", "SSE",
                  "S", "SSW", "SW", "WSW", "W", "WNW", "NW", "NNW"];
    const ix = Math.round(((deg % 360) / 22.5)) % 16;
    return dirs[ix];
  }
  \<close>
  The remainder \<^verbatim>\<open>%\<close> has the sign of the dividend. The argument is \<open>None\<close> for
  \<^verbatim>\<open>null\<close> and \<^verbatim>\<open>undefined\<close>; the result is \<open>None\<close> when \<^verbatim>\<open>dirs[ix]\<close> is
  undefined (an index below zero, or the index \<^verbatim>\<open>NaN\<close> of an infinite argument).
  The index \<open>ix\<close> is a whole number, so \<open>\<lfloor>ix\<rfloor>\<close> is its value as an integer.
\<close>

definition js_rem :: "real \<Rightarrow> real \<Rightarrow> real" where
  "js_rem a b =
     (let q = a / b
      in a - b * real_of_int (if 0 \<le> q then \<lfloor>q\<rfloor> else \<lceil>q\<rceil>))"

definition dirs :: "string list" where
  "dirs = [''N'', ''NNE'', ''NE'', ''ENE'', ''E'', ''ESE'', ''SE'', ''SSE'',
           ''S'', ''SSW'', ''SW'', ''WSW'', ''W'', ''WNW'', ''NW'', ''NNW'']"

definition degToCardinal :: "jsnum option \<Rightarrow> string option" where
  "degToCardinal deg =
     (case deg of
        None \<Rightarrow> Some ''N/A''
      | Some NaN \<Rightarrow> Some ''N/A''
      | Some PosInfinity \<Rightarrow> None
      | Some NegInfinity \<Rightarrow> None
      | Some (Num d) \<Rightarrow>
          (let ix = js_rem (real_of_int (Math_round (js_rem d 360 / 22.5))) 16
           in array_get dirs \<lfloor>ix\<rfloor>))"

section \<open>Sample inputs\<close>

text \<open>
  Concrete inputs at which the theorems below are evaluated: a reading with a given
  speed, a series of points with given speeds, a tracker state with a reading and a
  series for each station, a runtime whose draws are all \<open>1/2\<close>
  and whose clock stands at the epoch (\<open>steady_rand\<close> holds of every runtime whose draws
  are all \<open>1/2\<close>), an API that cannot be reached, and a formatter that only tells
  times before the epoch from the others.
\<close>

definition sample_reading :: "station \<Rightarrow> real \<Rightarrow> WindPayload" where
  "sample_reading key s =
     \<lparr> stationId = STATIONS_id key, stationName = STATIONS_name key,
       dateTime = ''2024-05-01T12:00:00'',
       wind = \<lparr> speed = s, gust = s + 1, min_wind = s, unit = ''m/s'', direction = 190 \<rparr>,
       humidity = None, pressure = None, rain = None, temperature = None \<rparr>"

definition sample_points :: "real list \<Rightarrow> HistoricPoint list" where
  "sample_points speeds = map (\<lambda>s. \<lparr> t = [], hspeed = s, hgust = s \<rparr>) speeds"

definition sample_tracker :: "real \<Rightarrow> real list \<Rightarrow> real \<Rightarrow> real list \<Rightarrow> tracker" where
  "sample_tracker ds dh ls lh =
     \<lparr> current = [STATIONS_id drobak \<mapsto> sample_reading drobak ds,
                  STATIONS_id lysaker \<mapsto> sample_reading lysaker ls],
       historic = [STATIONS_id drobak \<mapsto> sample_points dh,
                   STATIONS_id lysaker \<mapsto> sample_points lh] \<rparr>"

definition steady_runtime :: runtime where
  "steady_runtime = \<lparr> rand = (\<lambda>n. 1 / 2), clock = (\<lambda>n. 0) \<rparr>"

definition steady_rand :: "runtime \<Rightarrow> bool" where
  "steady_rand rt = (\<forall>n. rand rt n = 1 / 2)"

definition unreachable_network :: network where
  "unreachable_network =
     \<lparr> currentReply = (\<lambda>id. Unreachable), historicReply = (\<lambda>id. Unreachable) \<rparr>"

definition sample_baseUrl :: "string option" where
  "sample_baseUrl = Some ''https://api.example''"

definition sample_formatISO :: "int \<Rightarrow> string" where
  "sample_formatISO ms = (if ms < 0 then ''before-epoch'' else ''epoch-or-later'')"

section \<open>Rounding and clamping\<close>

declare simulateHistoric_loop.simps [simp del]

lemma Math_round_eq: "Math_round x = round x"
  by (simp add: Math_round_def round_def)

lemma Math_round_mono: "x \<le> y \<Longrightarrow> Math_round x \<le> Math_round y"
  by (simp add: Math_round_def floor_mono)

lemma Math_round_of_int: "Math_round (real_of_int k) = k"
  by (simp add: Math_round_def)

lemma Math_round_near: "\<bar>real_of_int (Math_round x) - x\<bar> \<le> 1 / 2"
  unfolding Math_round_def by linarith

lemma clamp_bounds: "lo \<le> hi \<Longrightarrow> lo \<le> clamp n lo hi \<and> clamp n lo hi \<le> hi"
  by (simp add: clamp_def)

lemma toFixed1_fifth: "toFixed 1 (real_of_int k * 0.2) = real_of_int k * 0.2"
proof -
  have a: "\<bar>real_of_int k * 0.2\<bar> * 10 ^ 1 + 1 / 2 = real_of_int (2 * \<bar>k\<bar>) + 1 / 2"
    by (simp add: abs_mult)
  have "\<lfloor>real_of_int (2 * \<bar>k\<bar>) + 1 / 2\<rfloor> = 2 * \<bar>k\<bar>"
    by linarith
  then show ?thesis
    unfolding toFixed_def a by (cases "k \<ge> 0") (auto simp: sgn_if)
qed

lemma toFixed_mono_nonneg:
  assumes "0 \<le> x" "x \<le> y"
  shows "toFixed d x \<le> toFixed d y"
proof (cases "x = 0")
  case True
  have "0 \<le> real_of_int \<lfloor>\<bar>y\<bar> * 10 ^ d + 1 / 2\<rfloor>"
    by simp
  then have "0 \<le> toFixed d y"
    using assms by (simp add: toFixed_def sgn_if)
  then show ?thesis using True by (simp add: toFixed_def)
next
  case False
  then have px: "0 < x" and py: "0 < y" using assms by simp_all
  have "x * 10 ^ d + 1 / 2 \<le> y * 10 ^ d + 1 / 2"
    using assms(2) by simp
  then have "\<lfloor>x * 10 ^ d + 1 / 2\<rfloor> \<le> \<lfloor>y * 10 ^ d + 1 / 2\<rfloor>"
    by (rule floor_mono)
  then show ?thesis
    using px py by (simp add: toFixed_def divide_right_mono)
qed

lemma toFixed_decimal: "\<exists>k. toFixed d x = real_of_int k / 10 ^ d"
proof -
  have "toFixed d x =
          real_of_int ((if x < 0 then - 1 else if x = 0 then 0 else 1) * \<lfloor>\<bar>x\<bar> * 10 ^ d + 1 / 2\<rfloor>)
          / 10 ^ d"
    by (simp add: toFixed_def sgn_if)
  then show ?thesis by blast
qed

lemma round_step_between:
  assumes "real_of_int a * step \<le> n" "n \<le> real_of_int b * step" "0 < step"
  shows "real_of_int a * step \<le> round_step n step \<and> round_step n step \<le> real_of_int b * step"
proof -
  have "real_of_int a \<le> n / step" "n / step \<le> real_of_int b"
    using assms by (simp_all add: pos_le_divide_eq pos_divide_le_eq)
  then have "a \<le> Math_round (n / step)" "Math_round (n / step) \<le> b"
    using Math_round_mono[of "real_of_int a" "n / step"] Math_round_mono[of "n / step" "real_of_int b"]
    by (simp_all add: Math_round_of_int)
  then show ?thesis
    using assms(3) by (simp add: round_step_def)
qed

lemma roundInt_eq_round_step: "roundInt = round_step"
  by (simp add: fun_eq_iff roundInt_def round_step_def)

section \<open>The propagation estimate\<close>

text \<open>
  Claim C1. For every reading of the upstream station and every value of the building
  flag, \<open>etaMinutes\<close> is null when the flag is false or the upstream speed is at most
  0.5 m/s. Otherwise it is \<open>round (25 / clamp (10 + 1.5 * speed) 8 45 * 60)\<close>, a
  positive integer. At speed 6 with the flag set it is 79. Without a reading it is
  null.
\<close>

theorem etaMinutes_spec:
  "(\<not> b \<or> speed (wind d) \<le> 0.5 \<longrightarrow> etaMinutes (Some d) b = None)
   \<and> (b \<and> speed (wind d) > 0.5 \<longrightarrow>
        etaMinutes (Some d) b = Some (round (25 / clamp (10 + 1.5 * speed (wind d)) 8 45 * 60))
        \<and> 0 < round (25 / clamp (10 + 1.5 * speed (wind d)) 8 45 * 60))
   \<and> (speed (wind d) = 6 \<longrightarrow> etaMinutes (Some d) True = Some 79)
   \<and> etaMinutes None b = None"
proof -
  let ?f = "clamp (10 + 1.5 * speed (wind d)) 8 45"
  have f: "8 \<le> ?f \<and> ?f \<le> 45"
    using clamp_bounds[of 8 45] by simp
  then have "25 / 45 \<le> 25 / ?f"
    by (intro divide_left_mono) simp_all
  then have "real_of_int 33 \<le> 25 / ?f * 60" by simp
  then have "33 \<le> Math_round (25 / ?f * 60)"
    using Math_round_mono[of "real_of_int 33"] by (simp only: Math_round_of_int)
  then have pos: "0 < round (25 / ?f * 60)"
    by (simp add: Math_round_eq)
  have c1: "\<not> b \<or> speed (wind d) \<le> 0.5 \<longrightarrow> etaMinutes (Some d) b = None"
    by (auto simp: etaMinutes_def)
  have c2: "b \<and> speed (wind d) > 0.5 \<longrightarrow>
        etaMinutes (Some d) b = Some (round (25 / ?f * 60))"
    by (simp add: etaMinutes_def distanceKm_def Math_round_eq mult.commute)
  have c3: "speed (wind d) = 6 \<longrightarrow> etaMinutes (Some d) True = Some 79"
    by (simp add: etaMinutes_def clamp_def Math_round_def distanceKm_def)
  have c4: "etaMinutes None b = None"
    by (simp add: etaMinutes_def)
  from pos c1 c2 c3 c4 show ?thesis by blast
qed

theorem etaMinutes_spec_witness:
  "speed (wind (sample_reading drobak 6)) = 6
   \<and> etaMinutes (Some (sample_reading drobak 6)) True = Some 79
   \<and> etaMinutes (Some (sample_reading drobak 6)) False = None
   \<and> etaMinutes (Some (sample_reading drobak 0.5)) True = None"
  using etaMinutes_spec[of True "sample_reading drobak 6"]
        etaMinutes_spec[of False "sample_reading drobak 6"]
        etaMinutes_spec[of True "sample_reading drobak 0.5"]
  by (simp add: sample_reading_def)

section \<open>The gear estimator\<close>

lemma sail_value:
  "sailM2 (recommendGear w v) =
     real_of_int (round (clamp (12 - 0.45 * v - 0.012 * (w - 75)) 4.0 9.8 / 0.2)) * 0.2"
  unfolding recommendGear_def Let_def round_step_def Math_round_eq
  using toFixed1_fifth by simp

lemma recommendGear_clamp_form:
  "sailM2 (recommendGear w v) =
     real_of_int (round (clamp (12 - 0.45 * v - 0.012 * (w - 75)) 4.0 9.8 / 0.2)) * 0.2
   \<and> \<bar>sailM2 (recommendGear w v) - clamp (12 - 0.45 * v - 0.012 * (w - 75)) 4.0 9.8\<bar> \<le> 0.1
   \<and> toFixed 1 (sailM2 (recommendGear w v)) = sailM2 (recommendGear w v)
   \<and> boardWidthCm (recommendGear w v) =
       real_of_int (round (clamp (112 - 3.2 * v - 0.12 * (w - 75)) 58 100))
   \<and> finCm (recommendGear w v) = real_of_int (round (clamp (54 - 2.2 * v) 28 52))
   \<and> \<bar>boardWidthCm (recommendGear w v) - clamp (112 - 3.2 * v - 0.12 * (w - 75)) 58 100\<bar> \<le> 1 / 2
   \<and> \<bar>finCm (recommendGear w v) - clamp (54 - 2.2 * v) 28 52\<bar> \<le> 1 / 2
   \<and> recommendGear 85 6 = \<lparr> sailM2 = 9.2, boardWidthCm = 92, finCm = 41 \<rparr>"
proof -
  let ?s = "clamp (12 - 0.45 * v - 0.012 * (w - 75)) 4.0 9.8"
  have near: "\<bar>real_of_int (round (?s / 0.2)) - ?s / 0.2\<bar> \<le> 1 / 2"
    using Math_round_near[of "?s / 0.2"] by (simp add: Math_round_eq)
  have scale: "\<bar>real_of_int k * 0.2 - x\<bar> \<le> 0.1" if "\<bar>real_of_int k - x / 0.2\<bar> \<le> 1 / 2" for k x
  proof -
    have "real_of_int k * 0.2 - x = (real_of_int k - x / 0.2) * 0.2" by simp
    then have "\<bar>real_of_int k * 0.2 - x\<bar> = \<bar>real_of_int k - x / 0.2\<bar> * 0.2"
      by (simp only: abs_mult)
    with that show ?thesis by simp
  qed
  have c2: "\<bar>sailM2 (recommendGear w v) - ?s\<bar> \<le> 0.1"
    unfolding sail_value using near by (rule scale)
  have c3: "toFixed 1 (sailM2 (recommendGear w v)) = sailM2 (recommendGear w v)"
    unfolding sail_value by (rule toFixed1_fifth)
  have c4: "boardWidthCm (recommendGear w v) =
       real_of_int (round (clamp (112 - 3.2 * v - 0.12 * (w - 75)) 58 100))"
    by (simp add: recommendGear_def roundInt_def Math_round_eq)
  have c5: "finCm (recommendGear w v) = real_of_int (round (clamp (54 - 2.2 * v) 28 52))"
    by (simp add: recommendGear_def roundInt_def Math_round_eq)
  have c6: "recommendGear 85 6 = \<lparr> sailM2 = 9.2, boardWidthCm = 92, finCm = 41 \<rparr>"
    by (simp add: recommendGear_def clamp_def Math_round_def round_step_def roundInt_def toFixed_def)
  have c7: "\<bar>boardWidthCm (recommendGear w v) - clamp (112 - 3.2 * v - 0.12 * (w - 75)) 58 100\<bar> \<le> 1 / 2"
    unfolding c4 using Math_round_near[of "clamp (112 - 3.2 * v - 0.12 * (w - 75)) 58 100"]
    by (simp only: Math_round_eq)
  have c8: "\<bar>finCm (recommendGear w v) - clamp (54 - 2.2 * v) 28 52\<bar> \<le> 1 / 2"
    unfolding c5 using Math_round_near[of "clamp (54 - 2.2 * v) 28 52"]
    by (simp only: Math_round_eq)
  from sail_value c2 c3 c4 c5 c6 c7 c8 show ?thesis by blast
qed

text \<open>
  Claim C2. For every weight and wind speed, the sail area of \<open>recommendGear\<close> is
  \<open>12 - 0.45 * wind - 0.012 * (weight - 75)\<close>, raised to at least 4.0 and lowered to
  at most 9.8, then rounded to the nearest multiple of 0.2: it is a multiple of 0.2
  within 0.1 of the clamped value (the multiple that \<^verbatim>\<open>Math.round\<close> picks, a tie
  going up), and printing it with one decimal does not change it. The board width is
  \<open>112 - 3.2 * wind - 0.12 * (weight - 75)\<close> brought into \<open>[58, 100]\<close> and the fin is
  \<open>54 - 2.2 * wind\<close> brought into \<open>[28, 52]\<close>, each rounded to the nearest integer
  (within 1/2 of the clamped value). For 85 kg and 6 m/s the result is sail 9.2,
  board 92, fin 41.
\<close>

theorem recommendGear_formulas:
  "sailM2 (recommendGear w v) =
     real_of_int (round (min 9.8 (max 4.0 (12 - 0.45 * v - 0.012 * (w - 75))) / 0.2)) * 0.2
   \<and> \<bar>sailM2 (recommendGear w v) - min 9.8 (max 4.0 (12 - 0.45 * v - 0.012 * (w - 75)))\<bar> \<le> 0.1
   \<and> toFixed 1 (sailM2 (recommendGear w v)) = sailM2 (recommendGear w v)
   \<and> boardWidthCm (recommendGear w v) =
       real_of_int (round (min 100 (max 58 (112 - 3.2 * v - 0.12 * (w - 75)))))
   \<and> \<bar>boardWidthCm (recommendGear w v) - min 100 (max 58 (112 - 3.2 * v - 0.12 * (w - 75)))\<bar> \<le> 1 / 2
   \<and> finCm (recommendGear w v) = real_of_int (round (min 52 (max 28 (54 - 2.2 * v))))
   \<and> \<bar>finCm (recommendGear w v) - min 52 (max 28 (54 - 2.2 * v))\<bar> \<le> 1 / 2
   \<and> recommendGear 85 6 = \<lparr> sailM2 = 9.2, boardWidthCm = 92, finCm = 41 \<rparr>"
  using recommendGear_clamp_form[of w v] unfolding clamp_def by blast

text \<open>
  Claim C8. \<open>recommendGear\<close> is total, and for all inputs its sail area lies in
  \<open>[4.0, 9.8]\<close>, its board width in \<open>[58, 100]\<close> and its fin in \<open>[28, 52]\<close>: rounding
  after clamping does not leave the clamp bounds. For 200 kg and 50 m/s all three are
  at their floor, and for large negative inputs at their ceiling.
\<close>

theorem recommendGear_bounds:
  "4.0 \<le> sailM2 (recommendGear w v) \<and> sailM2 (recommendGear w v) \<le> 9.8
   \<and> 58 \<le> boardWidthCm (recommendGear w v) \<and> boardWidthCm (recommendGear w v) \<le> 100
   \<and> 28 \<le> finCm (recommendGear w v) \<and> finCm (recommendGear w v) \<le> 52
   \<and> recommendGear 200 50 = \<lparr> sailM2 = 4.0, boardWidthCm = 58, finCm = 28 \<rparr>
   \<and> recommendGear (- 1000) (- 1000) = \<lparr> sailM2 = 9.8, boardWidthCm = 100, finCm = 52 \<rparr>"
proof -
  let ?s = "clamp (12 - 0.45 * v - 0.012 * (w - 75)) 4.0 9.8"
  let ?b = "clamp (112 - 3.2 * v - 0.12 * (w - 75)) 58 100"
  let ?f = "clamp (54 - 2.2 * v) 28 52"
  have s: "real_of_int 20 * 0.2 \<le> ?s \<and> ?s \<le> real_of_int 49 * 0.2"
    using clamp_bounds[of "4.0" "9.8"] by simp
  have rs: "real_of_int 20 * 0.2 \<le> round_step ?s 0.2 \<and> round_step ?s 0.2 \<le> real_of_int 49 * 0.2"
    using s by (intro round_step_between) simp_all
  have "toFixed 1 (round_step ?s 0.2) = round_step ?s 0.2"
    unfolding round_step_def by (rule toFixed1_fifth)
  then have c1: "4.0 \<le> sailM2 (recommendGear w v) \<and> sailM2 (recommendGear w v) \<le> 9.8"
    using rs by (simp add: recommendGear_def)
  have b: "real_of_int 58 * 1 \<le> ?b \<and> ?b \<le> real_of_int 100 * 1"
    using clamp_bounds[of 58 100] by simp
  have "real_of_int 58 * 1 \<le> round_step ?b 1 \<and> round_step ?b 1 \<le> real_of_int 100 * 1"
    using b by (intro round_step_between) simp_all
  then have c2: "58 \<le> boardWidthCm (recommendGear w v) \<and> boardWidthCm (recommendGear w v) \<le> 100"
    by (simp add: recommendGear_def roundInt_eq_round_step)
  have f: "real_of_int 28 * 1 \<le> ?f \<and> ?f \<le> real_of_int 52 * 1"
    using clamp_bounds[of 28 52] by simp
  have "real_of_int 28 * 1 \<le> round_step ?f 1 \<and> round_step ?f 1 \<le> real_of_int 52 * 1"
    using f by (intro round_step_between) simp_all
  then have c3: "28 \<le> finCm (recommendGear w v) \<and> finCm (recommendGear w v) \<le> 52"
    by (simp add: recommendGear_def roundInt_eq_round_step)
  have c4: "recommendGear 200 50 = \<lparr> sailM2 = 4.0, boardWidthCm = 58, finCm = 28 \<rparr>"
    by (simp add: recommendGear_def clamp_def Math_round_def round_step_def roundInt_def toFixed_def)
  have c5: "recommendGear (- 1000) (- 1000) = \<lparr> sailM2 = 9.8, boardWidthCm = 100, finCm = 52 \<rparr>"
    by (simp add: recommendGear_def clamp_def Math_round_def round_step_def roundInt_def toFixed_def)
  from c1 c2 c3 c4 c5 show ?thesis by blast
qed

section \<open>The simulator\<close>

lemma fair_rand_Math_random: "fair_rand rt \<Longrightarrow> fair_rand (snd (Math_random rt))"
  by (simp add: fair_rand_def Math_random_def)

lemma fair_rand_randBetween [simp]: "fair_rand rt \<Longrightarrow> fair_rand (snd (randBetween lo hi rt))"
  by (simp add: randBetween_def split_def fair_rand_Math_random)

lemma fair_rand_new_Date [simp]: "fair_rand rt \<Longrightarrow> fair_rand (snd (new_Date rt))"
  by (simp add: fair_rand_def new_Date_def)

lemma fair_rand_steady: "fair_rand steady_runtime"
  by (simp add: fair_rand_def steady_runtime_def)

lemma randBetween_range:
  assumes "fair_rand rt" "lo \<le> hi"
  shows "lo \<le> fst (randBetween lo hi rt) \<and> fst (randBetween lo hi rt) \<le> hi"
proof -
  have r: "0 \<le> rand rt 0" "rand rt 0 < 1"
    using assms(1) by (simp_all add: fair_rand_def)
  have d: "0 \<le> hi - lo" using assms(2) by simp
  have "0 \<le> rand rt 0 * (hi - lo)"
    using r(1) d by (rule mult_nonneg_nonneg)
  moreover have "rand rt 0 * (hi - lo) \<le> 1 * (hi - lo)"
    using r(2) d by (intro mult_right_mono) simp_all
  ultimately show ?thesis
    by (simp add: randBetween_def Math_random_def)
qed

lemma simulateCurrent_direction_eq:
  "direction (wind (fst (simulateCurrent f st prev rt))) =
     (if st = drobak then 190 else 200)
     + fst (randBetween (if st = drobak then - 20 else - 25) (if st = drobak then 20 else 25)
         (snd (randBetween 0.1 1 (snd (randBetween 0.2 2.5
            (case prev of
               Some p \<Rightarrow> snd (randBetween (if st = drobak then - 0.3 else - 0.4)
                                (if st = drobak then 0.9 else 0.6) rt)
             | None \<Rightarrow> snd (randBetween (- 1) 1
                           (snd (randBetween (if st = drobak then - 0.3 else - 0.4)
                                   (if st = drobak then 0.9 else 0.6) rt)))))))))"
  by (simp add: simulateCurrent_def Let_def split_def split: option.split)

lemma simulateCurrent_wind_shape:
  "\<exists>x y z d. wind (fst (simulateCurrent f st prev rt)) =
      \<lparr> speed = clamp x 0 20, gust = clamp y (clamp x 0 20) (clamp x 0 20 + 4),
        min_wind = clamp z 0 (clamp x 0 20), unit = ''m/s'', direction = d \<rparr>"
  unfolding simulateCurrent_def Let_def split_def by (simp del: ex_simps) blast

lemma simulateCurrent_wind_order:
  "speed (wind (fst (simulateCurrent f st prev rt))) \<le> gust (wind (fst (simulateCurrent f st prev rt)))
   \<and> min_wind (wind (fst (simulateCurrent f st prev rt))) \<le> speed (wind (fst (simulateCurrent f st prev rt)))
   \<and> 0 \<le> min_wind (wind (fst (simulateCurrent f st prev rt)))
   \<and> 0 \<le> speed (wind (fst (simulateCurrent f st prev rt)))
   \<and> speed (wind (fst (simulateCurrent f st prev rt))) \<le> 20"
proof -
  obtain x y z d where w: "wind (fst (simulateCurrent f st prev rt)) =
      \<lparr> speed = clamp x 0 20, gust = clamp y (clamp x 0 20) (clamp x 0 20 + 4),
        min_wind = clamp z 0 (clamp x 0 20), unit = ''m/s'', direction = d \<rparr>"
    using simulateCurrent_wind_shape by blast
  have s: "0 \<le> clamp x 0 20 \<and> clamp x 0 20 \<le> 20"
    by (rule clamp_bounds) simp
  have g: "clamp x 0 20 \<le> clamp y (clamp x 0 20) (clamp x 0 20 + 4)"
    using clamp_bounds[of "clamp x 0 20" "clamp x 0 20 + 4" y] by simp
  have m: "0 \<le> clamp z 0 (clamp x 0 20) \<and> clamp z 0 (clamp x 0 20) \<le> clamp x 0 20"
    using clamp_bounds[of 0 "clamp x 0 20" z] s by simp
  show ?thesis unfolding w using s g m by simp
qed

lemma simulateCurrent_direction_ex:
  assumes "fair_rand rt"
  shows "\<exists>rt'. fair_rand rt' \<and> direction (wind (fst (simulateCurrent f st prev rt))) =
           (if st = drobak then 190 + fst (randBetween (- 20) 20 rt')
            else 200 + fst (randBetween (- 25) 25 rt'))"
proof (cases st)
  case drobak
  show ?thesis
    unfolding drobak simulateCurrent_direction_eq
    apply (simp only: simp_thms if_True if_False station.distinct)
    apply (rule exI, rule conjI[rotated], rule refl)
    using assms apply (simp split: option.split)
    done
next
  case lysaker
  show ?thesis
    unfolding lysaker simulateCurrent_direction_eq
    apply (simp only: simp_thms if_True if_False station.distinct)
    apply (rule exI, rule conjI[rotated], rule refl)
    using assms apply (simp split: option.split)
    done
qed

lemma simulateCurrent_direction:
  assumes "fair_rand rt"
  shows "(st = drobak \<longrightarrow> 170 \<le> direction (wind (fst (simulateCurrent f st prev rt)))
                       \<and> direction (wind (fst (simulateCurrent f st prev rt))) \<le> 210)
       \<and> (st = lysaker \<longrightarrow> 175 \<le> direction (wind (fst (simulateCurrent f st prev rt)))
                       \<and> direction (wind (fst (simulateCurrent f st prev rt))) \<le> 225)"
proof -
  obtain rt' where fr: "fair_rand rt'"
    and d: "direction (wind (fst (simulateCurrent f st prev rt))) =
           (if st = drobak then 190 + fst (randBetween (- 20) 20 rt')
            else 200 + fst (randBetween (- 25) 25 rt'))"
    using simulateCurrent_direction_ex[OF assms] by blast
  show ?thesis
    unfolding d
    using randBetween_range[OF fr, of "- 20" 20] randBetween_range[OF fr, of "- 25" 25]
    by simp
qed

text \<open>
  Claim C4. For every station and every optional previous reading, when every draw of
  the random source lies in \<open>[0, 1)\<close>, the reading that \<open>simulateCurrent\<close> produces
  has \<open>gust \<ge> speed \<ge> min \<ge> 0\<close>, a speed in \<open>[0, 20]\<close>, and a direction in
  \<open>[170, 210]\<close> for Dr\<oslash>bak and in \<open>[175, 225]\<close> for Lysaker.
\<close>

theorem simulateCurrent_invariant:
  assumes "fair_rand rt"
  shows "speed (wind (fst (simulateCurrent f st prev rt))) \<le> gust (wind (fst (simulateCurrent f st prev rt)))
   \<and> min_wind (wind (fst (simulateCurrent f st prev rt))) \<le> speed (wind (fst (simulateCurrent f st prev rt)))
   \<and> 0 \<le> min_wind (wind (fst (simulateCurrent f st prev rt)))
   \<and> 0 \<le> speed (wind (fst (simulateCurrent f st prev rt)))
   \<and> speed (wind (fst (simulateCurrent f st prev rt))) \<le> 20
   \<and> (st = drobak \<longrightarrow> 170 \<le> direction (wind (fst (simulateCurrent f st prev rt)))
                       \<and> direction (wind (fst (simulateCurrent f st prev rt))) \<le> 210)
   \<and> (st = lysaker \<longrightarrow> 175 \<le> direction (wind (fst (simulateCurrent f st prev rt)))
                       \<and> direction (wind (fst (simulateCurrent f st prev rt))) \<le> 225)"
  using simulateCurrent_wind_order[of f st prev rt] simulateCurrent_direction[OF assms, of st f prev]
  by blast

theorem simulateCurrent_invariant_witness:
  "fair_rand steady_runtime
   \<and> 0 \<le> min_wind (wind (fst (simulateCurrent sample_formatISO drobak None steady_runtime)))
   \<and> speed (wind (fst (simulateCurrent sample_formatISO drobak None steady_runtime))) \<le> 20
   \<and> 170 \<le> direction (wind (fst (simulateCurrent sample_formatISO drobak None steady_runtime)))
   \<and> direction (wind (fst (simulateCurrent sample_formatISO lysaker
          (Some (sample_reading lysaker 30)) steady_runtime))) \<le> 225"
  using simulateCurrent_invariant[OF fair_rand_steady, of sample_formatISO drobak None]
        simulateCurrent_invariant[OF fair_rand_steady, of sample_formatISO lysaker
          "Some (sample_reading lysaker 30)"]
        fair_rand_steady
  by simp

lemma loop_neg: "i < 0 \<Longrightarrow> simulateHistoric_loop f now i s g rt = ([], rt)"
  by (subst simulateHistoric_loop.simps) simp

lemma loop_step:
  assumes "0 \<le> i"
  shows "\<exists>S G RT. 0 \<le> S \<and> S \<le> G \<and>
           fst (simulateHistoric_loop f now i s g rt) =
             \<lparr> t = f (now - i * 60000), hspeed = toFixed 2 S, hgust = toFixed 2 G \<rparr>
             # fst (simulateHistoric_loop f now (i - 5) S G RT)"
proof -
  let ?d1 = "randBetween (- 0.5) 0.6 rt"
  let ?S = "clamp (s + fst ?d1) 0 22"
  let ?d2 = "randBetween (- 0.4) 0.9 (snd ?d1)"
  let ?G = "clamp (max g ?S + fst ?d2) ?S (?S + 5)"
  have "0 \<le> ?S" using clamp_bounds[of 0 22] by simp
  moreover have "?S \<le> ?G" using clamp_bounds[of ?S "?S + 5"] by simp
  moreover have "fst (simulateHistoric_loop f now i s g rt) =
             \<lparr> t = f (now - i * 60000), hspeed = toFixed 2 ?S, hgust = toFixed 2 ?G \<rparr>
             # fst (simulateHistoric_loop f now (i - 5) ?S ?G (snd ?d2))"
    using assms by (subst simulateHistoric_loop.simps) (simp add: Let_def split_def)
  ultimately show ?thesis by blast
qed

lemma loop_length:
  "length (fst (simulateHistoric_loop f now i s g rt)) = (if 0 \<le> i then nat (i div 5) + 1 else 0)"
proof (induction "nat (i + 1)" arbitrary: i s g rt rule: less_induct)
  case less
  show ?case
  proof (cases "0 \<le> i")
    case False
    then show ?thesis by (simp add: loop_neg)
  next
    case True
    obtain S G RT where st: "fst (simulateHistoric_loop f now i s g rt) =
             \<lparr> t = f (now - i * 60000), hspeed = toFixed 2 S, hgust = toFixed 2 G \<rparr>
             # fst (simulateHistoric_loop f now (i - 5) S G RT)"
      using loop_step[OF True] by blast
    have "nat (i - 5 + 1) < nat (i + 1)" using True by simp
    from less[OF this]
    have ih: "length (fst (simulateHistoric_loop f now (i - 5) S G RT)) =
                (if 0 \<le> i - 5 then nat ((i - 5) div 5) + 1 else 0)" .
    show ?thesis
    proof (cases "0 \<le> i - 5")
      case True
      have "(i - 5) div 5 = i div 5 - 1" by simp
      moreover have "1 \<le> i div 5" using True by simp
      ultimately show ?thesis unfolding st using ih True by simp
    next
      case False
      then have "i div 5 = 0" using True by simp
      then show ?thesis unfolding st using ih False True by simp
    qed
  qed
qed

lemma loop_times:
  "k < length (fst (simulateHistoric_loop f now i s g rt)) \<Longrightarrow>
     t (fst (simulateHistoric_loop f now i s g rt) ! k) = f (now - (i - 5 * int k) * 60000)"
proof (induction "nat (i + 1)" arbitrary: i s g rt k rule: less_induct)
  case less
  show ?case
  proof (cases "0 \<le> i")
    case False
    then show ?thesis using less.prems by (simp add: loop_neg)
  next
    case True
    obtain S G RT where st: "fst (simulateHistoric_loop f now i s g rt) =
             \<lparr> t = f (now - i * 60000), hspeed = toFixed 2 S, hgust = toFixed 2 G \<rparr>
             # fst (simulateHistoric_loop f now (i - 5) S G RT)"
      using loop_step[OF True] by blast
    have m: "nat (i - 5 + 1) < nat (i + 1)" using True by simp
    show ?thesis
    proof (cases k)
      case 0
      then show ?thesis unfolding st by simp
    next
      case (Suc k')
      then have "k' < length (fst (simulateHistoric_loop f now (i - 5) S G RT))"
        using less.prems unfolding st by simp
      from less.hyps[OF m this]
      have "t (fst (simulateHistoric_loop f now (i - 5) S G RT) ! k') =
              f (now - (i - 5 - 5 * int k') * 60000)" .
      moreover have "i - 5 - 5 * int k' = i - 5 * int (Suc k')" by simp
      ultimately show ?thesis unfolding st Suc by simp
    qed
  qed
qed

lemma loop_points:
  "p \<in> set (fst (simulateHistoric_loop f now i s g rt)) \<Longrightarrow>
     hspeed p \<le> hgust p \<and> (\<exists>a. hspeed p = real_of_int a / 100) \<and> (\<exists>b. hgust p = real_of_int b / 100)"
proof (induction "nat (i + 1)" arbitrary: i s g rt rule: less_induct)
  case less
  show ?case
  proof (cases "0 \<le> i")
    case False
    then show ?thesis using less.prems by (simp add: loop_neg)
  next
    case True
    obtain S G RT where S: "0 \<le> S" "S \<le> G" and st: "fst (simulateHistoric_loop f now i s g rt) =
             \<lparr> t = f (now - i * 60000), hspeed = toFixed 2 S, hgust = toFixed 2 G \<rparr>
             # fst (simulateHistoric_loop f now (i - 5) S G RT)"
      using loop_step[OF True] by blast
    have m: "nat (i - 5 + 1) < nat (i + 1)" using True by simp
    from less.prems consider
        "p = \<lparr> t = f (now - i * 60000), hspeed = toFixed 2 S, hgust = toFixed 2 G \<rparr>"
      | "p \<in> set (fst (simulateHistoric_loop f now (i - 5) S G RT))"
      unfolding st by auto
    then show ?thesis
    proof cases
      case 1
      have "toFixed 2 S \<le> toFixed 2 G" using S by (rule toFixed_mono_nonneg)
      moreover have "\<exists>a. toFixed 2 S = real_of_int a / 100" using toFixed_decimal[of 2 S] by simp
      moreover have "\<exists>b. toFixed 2 G = real_of_int b / 100" using toFixed_decimal[of 2 G] by simp
      ultimately show ?thesis unfolding 1 by simp
    next
      case 2
      from less.hyps[OF m this] show ?thesis .
    qed
  qed
qed

lemma simulateHistoric_loop_eq:
  "fst (simulateHistoric f cur minutes rt) =
     fst (simulateHistoric_loop f (clock rt 0) minutes (speed (wind cur)) (gust (wind cur))
            (snd (new_Date rt)))"
  by (simp add: simulateHistoric_def Let_def split_def new_Date_def)

lemma simulateHistoric_length:
  "length (fst (simulateHistoric f cur minutes rt)) =
     (if 0 \<le> minutes then nat (minutes div 5) + 1 else 0)"
  unfolding simulateHistoric_loop_eq by (rule loop_length)

lemma simulateHistoric_times:
  "k < length (fst (simulateHistoric f cur minutes rt)) \<Longrightarrow>
     t (fst (simulateHistoric f cur minutes rt) ! k) =
       f (clock rt 0 - (minutes - 5 * int k) * 60000)"
  unfolding simulateHistoric_loop_eq by (rule loop_times)

lemma simulateHistoric_points:
  "p \<in> set (fst (simulateHistoric f cur minutes rt)) \<Longrightarrow>
     hspeed p \<le> hgust p \<and> (\<exists>a. hspeed p = real_of_int a / 100) \<and> (\<exists>b. hgust p = real_of_int b / 100)"
  unfolding simulateHistoric_loop_eq by (rule loop_points)

lemma simulateHistoric_last:
  assumes "0 \<le> minutes"
  shows "t (last (fst (simulateHistoric f cur minutes rt))) =
           f (clock rt 0 - (minutes mod 5) * 60000)"
proof -
  let ?pts = "fst (simulateHistoric f cur minutes rt)"
  have len: "length ?pts = nat (minutes div 5) + 1"
    using assms by (simp add: simulateHistoric_length)
  then have ne: "?pts \<noteq> []" by auto
  have "t (last ?pts) = t (?pts ! nat (minutes div 5))"
    using ne len by (simp add: last_conv_nth)
  also have "\<dots> = f (clock rt 0 - (minutes - 5 * int (nat (minutes div 5))) * 60000)"
    using len by (intro simulateHistoric_times) simp
  also have "minutes - 5 * int (nat (minutes div 5)) = minutes mod 5"
    using assms by (simp add: minus_mult_div_eq_mod pos_imp_zdiv_nonneg_iff)
  finally show ?thesis .
qed

text \<open>
  Claim C9, as stated, fails: for a window of 7 minutes the series has two points, not
  \<open>7 / 5 + 1\<close>, and its last timestamp is two minutes before now; for a window of
  \<open>- 10\<close> minutes the series is empty, while \<open>- 10 / 5 + 1\<close> is \<open>- 1\<close>.
\<close>

theorem simulateHistoric_counterexample:
  "real (length (fst (simulateHistoric sample_formatISO (sample_reading drobak 5) 7 steady_runtime)))
     \<noteq> 7 / 5 + 1
   \<and> t (last (fst (simulateHistoric sample_formatISO (sample_reading drobak 5) 7 steady_runtime)))
     \<noteq> sample_formatISO (clock steady_runtime 0)
   \<and> int (length (fst (simulateHistoric sample_formatISO (sample_reading drobak 5) (- 10) steady_runtime)))
     \<noteq> (- 10) div 5 + 1"
  by (simp add: simulateHistoric_length simulateHistoric_last sample_formatISO_def steady_runtime_def)

text \<open>
  Claim C9, amended. For every current reading and every window that is a non-negative
  multiple of 5 minutes, \<open>simulateHistoric\<close> returns exactly \<open>minutes / 5 + 1\<close>
  points (37 for the default of 180). The point at index \<open>k\<close> carries the time
  \<open>now - (minutes - 5 * k)\<close> minutes, so the points are ordered oldest to newest at
  5-minute steps and the last one carries the time \<open>now\<close>. The speed and the gust of
  every point are whole multiples of 0.01, and the gust is at least the speed.
\<close>

theorem simulateHistoric_series:
  assumes "0 \<le> minutes" "minutes mod 5 = 0"
  shows "length (fst (simulateHistoric f cur minutes rt)) = nat (minutes div 5) + 1
   \<and> (minutes = 180 \<longrightarrow> length (fst (simulateHistoric f cur minutes rt)) = 37)
   \<and> (\<forall>k < length (fst (simulateHistoric f cur minutes rt)).
         t (fst (simulateHistoric f cur minutes rt) ! k) =
           f (clock rt 0 - (minutes - 5 * int k) * 60000))
   \<and> t (last (fst (simulateHistoric f cur minutes rt))) = f (clock rt 0)
   \<and> (\<forall>p \<in> set (fst (simulateHistoric f cur minutes rt)).
         hspeed p \<le> hgust p
         \<and> (\<exists>a. hspeed p = real_of_int a / 100) \<and> (\<exists>b. hgust p = real_of_int b / 100))"
proof -
  have c1: "length (fst (simulateHistoric f cur minutes rt)) = nat (minutes div 5) + 1"
    using assms(1) by (simp add: simulateHistoric_length)
  have c2: "minutes = 180 \<longrightarrow> length (fst (simulateHistoric f cur minutes rt)) = 37"
    by (simp add: simulateHistoric_length)
  have c3: "\<forall>k < length (fst (simulateHistoric f cur minutes rt)).
         t (fst (simulateHistoric f cur minutes rt) ! k) =
           f (clock rt 0 - (minutes - 5 * int k) * 60000)"
    using simulateHistoric_times by blast
  have c4: "t (last (fst (simulateHistoric f cur minutes rt))) = f (clock rt 0)"
    using simulateHistoric_last[OF assms(1)] assms(2) by simp
  have c5: "\<forall>p \<in> set (fst (simulateHistoric f cur minutes rt)).
         hspeed p \<le> hgust p
         \<and> (\<exists>a. hspeed p = real_of_int a / 100) \<and> (\<exists>b. hgust p = real_of_int b / 100)"
    using simulateHistoric_points by blast
  from c1 c2 c3 c4 c5 show ?thesis by blast
qed

theorem simulateHistoric_series_witness:
  "(0::int) \<le> 180 \<and> (180::int) mod 5 = 0
   \<and> length (fst (simulateHistoric sample_formatISO (sample_reading drobak 5) 180 steady_runtime)) = 37
   \<and> t (last (fst (simulateHistoric sample_formatISO (sample_reading drobak 5) 180 steady_runtime)))
       = ''epoch-or-later''"
  using simulateHistoric_series[of 180 sample_formatISO "sample_reading drobak 5" steady_runtime]
  by (simp add: sample_formatISO_def steady_runtime_def)

section \<open>Slope and building flag\<close>

lemma slice_last: "1 \<le> k \<Longrightarrow> k \<le> int (length xs) \<Longrightarrow> slice_from (- k) xs = drop (length xs - nat k) xs"
  by (simp add: slice_from_def Let_def nat_diff_distrib' max_def)

lemma slope_short: "int (length pts) < lookback \<Longrightarrow> slope pts lookback = Num 0"
  by (simp add: slope_def)

lemma slope_full:
  assumes "1 \<le> lookback" "lookback \<le> int (length pts)"
  shows "slope pts lookback =
           Num ((hspeed (last pts) - hspeed (pts ! (length pts - nat lookback))) / real_of_int lookback)"
proof -
  let ?tail = "drop (length pts - nat lookback) pts"
  have tl: "slice_from (- lookback) pts = ?tail"
    using assms by (intro slice_last) simp_all
  have len: "length ?tail = nat lookback" using assms by simp
  have ne: "pts \<noteq> []" using assms by auto
  have f: "array_get ?tail 0 = Some (pts ! (length pts - nat lookback))"
    using assms by (simp add: array_get_def)
  have "?tail ! (nat lookback - 1) = pts ! (length pts - nat lookback + (nat lookback - 1))"
    using assms by (intro nth_drop) simp
  also have "length pts - nat lookback + (nat lookback - 1) = length pts - 1"
    using assms by linarith
  also have "pts ! (length pts - 1) = last pts"
    using ne by (simp add: last_conv_nth)
  finally have l: "array_get ?tail (int (length ?tail) - 1) = Some (last pts)"
    using assms unfolding len by (simp add: array_get_def nat_diff_distrib')
  show ?thesis
    using assms unfolding slope_def tl Let_def f l by (simp add: js_div_def)
qed

text \<open>
  Claim C5. For every series and every lookback, \<open>slope\<close> is exactly 0 when the
  series has fewer points than the lookback. Otherwise, for a lookback of at least one
  point, it is the speed of the last point minus the speed of the first of the last
  \<open>lookback\<close> points, divided by the lookback. For the default lookback of 6 the
  first of the last six points is the point at index \<open>length - 6\<close>.
\<close>

theorem slope_spec:
  "(int (length pts) < lookback \<longrightarrow> slope pts lookback = Num 0)
   \<and> (1 \<le> lookback \<and> lookback \<le> int (length pts) \<longrightarrow>
        slope pts lookback =
          Num ((hspeed (last pts) - hspeed (hd (drop (length pts - nat lookback) pts)))
               / real_of_int lookback))
   \<and> (length pts < 6 \<longrightarrow> slope pts 6 = Num 0)
   \<and> (6 \<le> length pts \<longrightarrow>
        slope pts 6 = Num ((hspeed (last pts) - hspeed (pts ! (length pts - 6))) / 6))"
proof -
  have c2: "1 \<le> lookback \<and> lookback \<le> int (length pts) \<longrightarrow>
        slope pts lookback =
          Num ((hspeed (last pts) - hspeed (hd (drop (length pts - nat lookback) pts)))
               / real_of_int lookback)"
  proof
    assume a: "1 \<le> lookback \<and> lookback \<le> int (length pts)"
    then have "length pts - nat lookback < length pts" by linarith
    then have "hd (drop (length pts - nat lookback) pts) = pts ! (length pts - nat lookback)"
      by (simp add: hd_drop_conv_nth)
    then show "slope pts lookback =
          Num ((hspeed (last pts) - hspeed (hd (drop (length pts - nat lookback) pts)))
               / real_of_int lookback)"
      using slope_full[of lookback pts] a by simp
  qed
  have c3: "length pts < 6 \<longrightarrow> slope pts 6 = Num 0"
    by (simp add: slope_short)
  have c4: "6 \<le> length pts \<longrightarrow>
        slope pts 6 = Num ((hspeed (last pts) - hspeed (pts ! (length pts - 6))) / 6)"
    using slope_full[of 6 pts] by simp
  from slope_short c2 c3 c4 show ?thesis by blast
qed

theorem slope_spec_witness:
  "slope (sample_points [1, 2, 3]) 6 = Num 0
   \<and> slope (sample_points [9, 4, 4.1, 4.2, 4.3, 4.4, 4.6]) 6 = Num 0.1
   \<and> slope (sample_points [9, 4, 4.1, 4.2, 4.3, 4.4, 4.6]) 2 = Num 0.1"
  using slope_spec[of "sample_points [1, 2, 3]" 6]
        slope_spec[of "sample_points [9, 4, 4.1, 4.2, 4.3, 4.4, 4.6]" 6]
        slope_spec[of "sample_points [9, 4, 4.1, 4.2, 4.3, 4.4, 4.6]" 2]
  by (simp add: sample_points_def)

text \<open>
  Claim C6. For every tracker state with a current reading for Dr\<oslash>bak, the building
  flag is true if and only if the slope of the Dr\<oslash>bak series (lookback 6) exceeds
  0.08 and the current speed is at least 4 m/s. With fewer than six points the flag is
  false; with six or more the slope is the difference of the last and the sixth-last
  speed, divided by 6.
\<close>

theorem isBuildingAtDrobak_iff:
  assumes "drobakCurrent tr = Some d"
  shows "(isBuildingAtDrobak tr \<longleftrightarrow> js_gt (slope (drobakHist tr) 6) 0.08 \<and> speed (wind d) \<ge> 4)
   \<and> (length (drobakHist tr) < 6 \<longrightarrow> \<not> isBuildingAtDrobak tr)
   \<and> (6 \<le> length (drobakHist tr) \<longrightarrow>
        (isBuildingAtDrobak tr \<longleftrightarrow>
           (hspeed (last (drobakHist tr)) - hspeed (drobakHist tr ! (length (drobakHist tr) - 6))) / 6 > 0.08
           \<and> speed (wind d) \<ge> 4))"
proof -
  have c1: "isBuildingAtDrobak tr \<longleftrightarrow> js_gt (slope (drobakHist tr) 6) 0.08 \<and> speed (wind d) \<ge> 4"
    using assms by (simp add: isBuildingAtDrobak_def drobakSlope_def)
  have c2: "length (drobakHist tr) < 6 \<longrightarrow> \<not> isBuildingAtDrobak tr"
    unfolding c1 by (simp add: slope_short)
  have c3: "6 \<le> length (drobakHist tr) \<longrightarrow>
        (isBuildingAtDrobak tr \<longleftrightarrow>
           (hspeed (last (drobakHist tr)) - hspeed (drobakHist tr ! (length (drobakHist tr) - 6))) / 6 > 0.08
           \<and> speed (wind d) \<ge> 4)"
    unfolding c1 using slope_full[of 6 "drobakHist tr"] by simp
  from c1 c2 c3 show ?thesis by blast
qed


theorem isBuildingAtDrobak_iff_witness:
  "drobakCurrent (sample_tracker 6 [4, 4.1, 4.2, 4.3, 4.4, 4.6] 3 []) = Some (sample_reading drobak 6)
   \<and> isBuildingAtDrobak (sample_tracker 6 [4, 4.1, 4.2, 4.3, 4.4, 4.6] 3 [])
   \<and> drobakCurrent (sample_tracker 3 [4, 4.1, 4.2, 4.3, 4.4, 4.6] 3 []) = Some (sample_reading drobak 3)
   \<and> \<not> isBuildingAtDrobak (sample_tracker 3 [4, 4.1, 4.2, 4.3, 4.4, 4.6] 3 [])
   \<and> \<not> isBuildingAtDrobak (sample_tracker 6 [4, 4.6] 3 [])"
proof -
  have d6: "drobakCurrent (sample_tracker 6 dh 3 []) = Some (sample_reading drobak 6)" for dh
    by (simp add: drobakCurrent_def sample_tracker_def)
  have d3: "drobakCurrent (sample_tracker 3 dh 3 []) = Some (sample_reading drobak 3)" for dh
    by (simp add: drobakCurrent_def sample_tracker_def)
  have h: "drobakHist (sample_tracker ds dh 3 []) = sample_points dh" for ds dh
    by (simp add: drobakHist_def sample_tracker_def)
  show ?thesis
    using isBuildingAtDrobak_iff[OF d6, of "[4, 4.1, 4.2, 4.3, 4.4, 4.6]"]
          isBuildingAtDrobak_iff[OF d3, of "[4, 4.1, 4.2, 4.3, 4.4, 4.6]"]
          isBuildingAtDrobak_iff[OF d6, of "[4, 4.6]"]
    by (simp add: d6 d3 h sample_points_def sample_reading_def slope_def slice_from_def
          array_get_def js_div_def Let_def)
qed

section \<open>The Lysaker indicator\<close>

lemma array_at_sixth:
  "array_at xs (- 6) = (if 6 \<le> length xs then Some (xs ! (length xs - 6)) else None)"
  by (auto simp: array_at_def Let_def nat_diff_distrib')

text \<open>
  Claim C7, as stated, fails: with a Lysaker reading of 5 m/s and six historic points
  of 4 m/s the slope of the series is 0, yet the card shows "Building".
\<close>

theorem lysakerSub_counterexample:
  "\<not> (lysakerSub (sample_tracker 6 [] 5 [4, 4, 4, 4, 4, 4]) = ''Building''
       \<longleftrightarrow> js_gt (lysakerSlope (sample_tracker 6 [] 5 [4, 4, 4, 4, 4, 4])) 0.08)"
proof -
  have h: "lysakerHist (sample_tracker 6 [] 5 [4, 4, 4, 4, 4, 4]) = sample_points [4, 4, 4, 4, 4, 4]"
    by (simp add: lysakerHist_def sample_tracker_def)
  have s: "lysakerSlope (sample_tracker 6 [] 5 [4, 4, 4, 4, 4, 4]) = Num 0"
    unfolding lysakerSlope_def h using slope_full[of 6 "sample_points [4, 4, 4, 4, 4, 4]"]
    by (simp add: sample_points_def)
  have "lysakerTrend (sample_tracker 6 [] 5 [4, 4, 4, 4, 4, 4]) = 1"
    unfolding lysakerTrend_def h array_at_sixth
    by (simp add: lysakerCurrent_def sample_tracker_def sample_points_def sample_reading_def)
  then have "lysakerSub (sample_tracker 6 [] 5 [4, 4, 4, 4, 4, 4]) = ''Building''"
    by (simp add: lysakerSub_def)
  then show ?thesis unfolding s by simp
qed

text \<open>
  Claim C7, amended. For every tracker state, the Lysaker card shows "Building" exactly
  when the current Lysaker speed (0 without a reading) minus the speed of the
  sixth-last point of the Lysaker series (0 with fewer than six points) exceeds 0.08;
  no minimum speed is required. Otherwise it shows "Stable/Calm". When the current
  speed is the speed of the last point of a series of at least six points, this is a
  slope above \<open>0.08 / 6\<close>, not above 0.08.
\<close>

theorem lysakerSub_spec:
  "(lysakerSub tr = ''Building'' \<longleftrightarrow>
      (case lysakerCurrent tr of None \<Rightarrow> 0 | Some l \<Rightarrow> speed (wind l))
      - (if 6 \<le> length (lysakerHist tr)
         then hspeed (lysakerHist tr ! (length (lysakerHist tr) - 6)) else 0) > 0.08)
   \<and> (lysakerSub tr \<noteq> ''Building'' \<longrightarrow> lysakerSub tr = ''Stable/Calm'')
   \<and> (6 \<le> length (lysakerHist tr) \<and> lysakerCurrent tr = Some l
        \<and> speed (wind l) = hspeed (last (lysakerHist tr)) \<longrightarrow>
        (lysakerSub tr = ''Building'' \<longleftrightarrow> js_gt (lysakerSlope tr) (0.08 / 6)))"
proof -
  let ?h = "lysakerHist tr"
  have c1: "lysakerSub tr = ''Building'' \<longleftrightarrow>
      (case lysakerCurrent tr of None \<Rightarrow> 0 | Some l \<Rightarrow> speed (wind l))
      - (if 6 \<le> length ?h then hspeed (?h ! (length ?h - 6)) else 0) > 0.08"
    by (simp add: lysakerSub_def lysakerTrend_def array_at_sixth)
  have c2: "lysakerSub tr \<noteq> ''Building'' \<longrightarrow> lysakerSub tr = ''Stable/Calm''"
    by (simp add: lysakerSub_def)
  have c3: "6 \<le> length ?h \<and> lysakerCurrent tr = Some l \<and> speed (wind l) = hspeed (last ?h) \<longrightarrow>
        (lysakerSub tr = ''Building'' \<longleftrightarrow> js_gt (lysakerSlope tr) (0.08 / 6))"
  proof
    assume a: "6 \<le> length ?h \<and> lysakerCurrent tr = Some l \<and> speed (wind l) = hspeed (last ?h)"
    then have s: "lysakerSlope tr = Num ((hspeed (last ?h) - hspeed (?h ! (length ?h - 6))) / 6)"
      unfolding lysakerSlope_def using slope_full[of 6 ?h] by simp
    show "lysakerSub tr = ''Building'' \<longleftrightarrow> js_gt (lysakerSlope tr) (0.08 / 6)"
      unfolding c1 s using a by simp
  qed
  from c1 c2 c3 show ?thesis by blast
qed

theorem lysakerSub_spec_witness:
  "lysakerSub (sample_tracker 6 [] 5 [4, 4, 4, 4, 4, 4]) = ''Building''
   \<and> lysakerSub (sample_tracker 6 [] 1 []) = ''Building''
   \<and> lysakerSub (sample_tracker 6 [] 5 [5, 5, 5, 5, 5, 9]) = ''Stable/Calm''"
proof -
  have h: "lysakerHist (sample_tracker 6 [] ls lh) = sample_points lh" for ls lh
    by (simp add: lysakerHist_def sample_tracker_def)
  have c: "lysakerCurrent (sample_tracker 6 [] ls lh) = Some (sample_reading lysaker ls)" for ls lh
    by (simp add: lysakerCurrent_def sample_tracker_def)
  show ?thesis
    using lysakerSub_spec[of "sample_tracker 6 [] 5 [4, 4, 4, 4, 4, 4]" "sample_reading lysaker 5"]
          lysakerSub_spec[of "sample_tracker 6 [] 1 []" "sample_reading lysaker 1"]
          lysakerSub_spec[of "sample_tracker 6 [] 5 [5, 5, 5, 5, 5, 9]" "sample_reading lysaker 5"]
    by (simp add: h c sample_points_def sample_reading_def)
qed

section \<open>Compass points\<close>

lemma js_rem_small: "0 \<le> d \<Longrightarrow> d < 360 \<Longrightarrow> js_rem d 360 = d"
proof -
  assume a: "0 \<le> d" "d < 360"
  then have "0 \<le> d / 360" "d / 360 < 1" by simp_all
  then have "\<lfloor>d / 360\<rfloor> = 0" by linarith
  then show ?thesis using a by (simp add: js_rem_def Let_def)
qed

lemma js_rem_int16: "0 \<le> m \<Longrightarrow> js_rem (real_of_int m) 16 = real_of_int (m mod 16)"
proof -
  assume a: "0 \<le> m"
  have fl: "\<lfloor>real_of_int m / 16\<rfloor> = m div 16"
    using floor_divide_of_int_eq[of m 16] by simp
  have "m = 16 * (m div 16) + m mod 16" by simp
  then have "real_of_int m = 16 * real_of_int (m div 16) + real_of_int (m mod 16)"
    by (metis of_int_add of_int_mult of_int_numeral)
  then have "real_of_int m - 16 * real_of_int (m div 16) = real_of_int (m mod 16)"
    by linarith
  then show ?thesis using a
    unfolding js_rem_def Let_def fl by simp
qed

lemma length_dirs: "length dirs = 16"
  by (simp add: dirs_def)

lemma degToCardinal_index:
  assumes "0 \<le> d" "d < 360"
  shows "degToCardinal (Some (Num d)) = Some (dirs ! nat (round (d / 22.5) mod 16))"
proof -
  let ?m = "Math_round (d / 22.5)"
  have "real_of_int 0 \<le> d / 22.5" using assms by simp
  then have m0: "0 \<le> ?m"
    using Math_round_mono[of "real_of_int 0" "d / 22.5"] by (simp only: Math_round_of_int)
  have r: "0 \<le> ?m mod 16" "?m mod 16 < 16" by simp_all
  have "array_get dirs (?m mod 16) = Some (dirs ! nat (?m mod 16))"
    using r by (simp add: array_get_def length_dirs)
  then have "degToCardinal (Some (Num d)) = Some (dirs ! nat (?m mod 16))"
    using assms m0 by (simp add: degToCardinal_def js_rem_small js_rem_int16)
  then show ?thesis by (simp add: Math_round_eq)
qed

text \<open>
  Claim C10. For every direction in \<open>[0, 360)\<close>, \<open>degToCardinal\<close> returns one of
  the 16 compass points: the index \<open>round (deg / 22.5) mod 16\<close> lies in \<open>0..15\<close>,
  and the directions from 348.75 on wrap to "N". For \<^verbatim>\<open>null\<close>, \<^verbatim>\<open>undefined\<close> and
  \<^verbatim>\<open>NaN\<close> the result is "N/A".
\<close>

theorem degToCardinal_spec:
  "(0 \<le> d \<and> d < 360 \<longrightarrow>
      degToCardinal (Some (Num d)) = Some (dirs ! nat (round (d / 22.5) mod 16))
      \<and> nat (round (d / 22.5) mod 16) < 16
      \<and> (\<exists>s \<in> set dirs. degToCardinal (Some (Num d)) = Some s))
   \<and> (348.75 \<le> d \<and> d < 360 \<longrightarrow> degToCardinal (Some (Num d)) = Some ''N'')
   \<and> degToCardinal None = Some ''N/A''
   \<and> degToCardinal (Some NaN) = Some ''N/A''
   \<and> length dirs = 16 \<and> distinct dirs"
proof -
  have c1: "0 \<le> d \<and> d < 360 \<longrightarrow>
      degToCardinal (Some (Num d)) = Some (dirs ! nat (round (d / 22.5) mod 16))
      \<and> nat (round (d / 22.5) mod 16) < 16
      \<and> (\<exists>s \<in> set dirs. degToCardinal (Some (Num d)) = Some s)"
  proof
    assume a: "0 \<le> d \<and> d < 360"
    have i: "degToCardinal (Some (Num d)) = Some (dirs ! nat (round (d / 22.5) mod 16))"
      using a by (intro degToCardinal_index) simp_all
    have b: "nat (round (d / 22.5) mod 16) < 16"
      by (simp add: nat_less_iff)
    then have "dirs ! nat (round (d / 22.5) mod 16) \<in> set dirs"
      by (intro nth_mem) (simp add: length_dirs)
    with i b show "degToCardinal (Some (Num d)) = Some (dirs ! nat (round (d / 22.5) mod 16))
      \<and> nat (round (d / 22.5) mod 16) < 16
      \<and> (\<exists>s \<in> set dirs. degToCardinal (Some (Num d)) = Some s)"
      by blast
  qed
  have c2: "348.75 \<le> d \<and> d < 360 \<longrightarrow> degToCardinal (Some (Num d)) = Some ''N''"
  proof
    assume a: "348.75 \<le> d \<and> d < 360"
    then have "15.5 \<le> d / 22.5" "d / 22.5 < 16" by simp_all
    then have "round (d / 22.5) = 16"
      unfolding round_def by linarith
    then show "degToCardinal (Some (Num d)) = Some ''N''"
      using a degToCardinal_index[of d] by (simp add: dirs_def)
  qed
  have c3: "degToCardinal None = Some ''N/A''" "degToCardinal (Some NaN) = Some ''N/A''"
    by (simp_all add: degToCardinal_def)
  have c4: "distinct dirs" by (simp add: dirs_def)
  from c1 c2 c3 c4 length_dirs show ?thesis by blast
qed

theorem degToCardinal_spec_witness:
  "degToCardinal (Some (Num 190)) = Some ''S''
   \<and> degToCardinal (Some (Num 0)) = Some ''N''
   \<and> degToCardinal (Some (Num 359)) = Some ''N''
   \<and> degToCardinal (Some (Num 337.5)) = Some ''NNW''"
  using degToCardinal_spec[of 190] degToCardinal_spec[of 0] degToCardinal_spec[of 359]
        degToCardinal_spec[of "337.5"]
  by (simp add: dirs_def round_def)

section \<open>The poll cycle\<close>

lemma resolveCurrent_fail:
  assumes "\<not> truthy baseUrl \<or> (\<exists>e. fetchJSON (currentReply net (STATIONS_id key)) = Inl e)"
  shows "resolveCurrent f baseUrl net captured key rt =
           simulateCurrent f key (current captured (STATIONS_id key)) rt"
  using assms by (auto simp: resolveCurrent_def Let_def)

lemma resolveCurrent_ok:
  assumes "truthy baseUrl" "fetchJSON (currentReply net (STATIONS_id key)) = Inr payload"
  shows "resolveCurrent f baseUrl net captured key rt =
           (payload\<lparr>dateTime := toISO (dateTime payload)\<rparr>, rt)"
  using assms by (simp add: resolveCurrent_def Let_def)

lemma resolveHistoric_fail:
  assumes "nextCurrent (STATIONS_id key) = Some p"
    and "\<not> truthy baseUrl \<or> (\<exists>e. fetchJSON (historicReply net (STATIONS_id key)) = Inl e)"
  shows "resolveHistoric f baseUrl net nextCurrent key rt = Inr (simulateHistoric f p 180 rt)"
  using assms by (auto simp: resolveHistoric_def simulateHistoric_of_def Let_def)

lemma resolveHistoric_ok:
  assumes "truthy baseUrl" "fetchJSON (historicReply net (STATIONS_id key)) = Inr pts"
  shows "resolveHistoric f baseUrl net nextCurrent key rt = Inr (pts, rt)"
  using assms by (simp add: resolveHistoric_def Let_def)

lemma resolveHistoric_total:
  assumes "nextCurrent (STATIONS_id key) = Some p"
  shows "\<exists>h rt'. resolveHistoric f baseUrl net nextCurrent key rt = Inr (h, rt')"
proof (cases "truthy baseUrl \<and> (\<exists>pts. fetchJSON (historicReply net (STATIONS_id key)) = Inr pts)")
  case True
  then show ?thesis using resolveHistoric_ok by blast
next
  case False
  then have "\<not> truthy baseUrl \<or> (\<exists>e. fetchJSON (historicReply net (STATIONS_id key)) = Inl e)"
    by (cases "fetchJSON (historicReply net (STATIONS_id key))") auto
  with assms have "resolveHistoric f baseUrl net nextCurrent key rt = Inr (simulateHistoric f p 180 rt)"
    by (intro resolveHistoric_fail)
  then show ?thesis by (metis surj_pair)
qed

lemma fetchAll_station_Inr:
  "\<exists>p rt1 h rt2.
     resolveCurrent f b net captured key rt = (p, rt1)
     \<and> resolveHistoric f b net ((current next)(STATIONS_id key \<mapsto> p)) key rt1 = Inr (h, rt2)
     \<and> fetchAll_station f b net captured key (next, rt) =
         Inr (\<lparr> current = (current next)(STATIONS_id key \<mapsto> p),
                historic = (historic next)(STATIONS_id key \<mapsto> h) \<rparr>, rt2)"
proof -
  obtain p rt1 where rc: "resolveCurrent f b net captured key rt = (p, rt1)"
    by (metis surj_pair)
  have "((current next)(STATIONS_id key \<mapsto> p)) (STATIONS_id key) = Some p" by simp
  then have "\<exists>h rt'. resolveHistoric f b net ((current next)(STATIONS_id key \<mapsto> p)) key rt1 = Inr (h, rt')"
    by (rule resolveHistoric_total)
  then obtain h rt2 where rh:
    "resolveHistoric f b net ((current next)(STATIONS_id key \<mapsto> p)) key rt1 = Inr (h, rt2)"
    by blast
  have "fetchAll_station f b net captured key (next, rt) =
         Inr (\<lparr> current = (current next)(STATIONS_id key \<mapsto> p),
                historic = (historic next)(STATIONS_id key \<mapsto> h) \<rparr>, rt2)"
    by (simp add: fetchAll_station_def Let_def rc rh)
  with rc rh show ?thesis by blast
qed

lemma fetchAll_steps:
  "\<exists>p1 rt1 h1 rt2 p2 rt3 h2 rt4.
     resolveCurrent f b net captured drobak rt = (p1, rt1)
     \<and> resolveHistoric f b net ((current captured)(101 \<mapsto> p1)) drobak rt1 = Inr (h1, rt2)
     \<and> resolveCurrent f b net captured lysaker rt2 = (p2, rt3)
     \<and> resolveHistoric f b net ((current captured)(101 \<mapsto> p1, 201 \<mapsto> p2)) lysaker rt3 = Inr (h2, rt4)
     \<and> fetchAll f b net captured rt =
         Inr (\<lparr> current = (current captured)(101 \<mapsto> p1, 201 \<mapsto> p2),
                historic = (historic captured)(101 \<mapsto> h1, 201 \<mapsto> h2) \<rparr>, rt4)"
proof -
  obtain p1 rt1 h1 rt2 where d:
    "resolveCurrent f b net captured drobak rt = (p1, rt1)"
    "resolveHistoric f b net ((current captured)(101 \<mapsto> p1)) drobak rt1 = Inr (h1, rt2)"
    "fetchAll_station f b net captured drobak (captured, rt) =
         Inr (\<lparr> current = (current captured)(101 \<mapsto> p1),
                historic = (historic captured)(101 \<mapsto> h1) \<rparr>, rt2)"
    using fetchAll_station_Inr[of f b net captured drobak rt captured] by auto
  let ?n1 = "\<lparr> current = (current captured)(101 \<mapsto> p1),
                historic = (historic captured)(101 \<mapsto> h1) \<rparr>"
  obtain p2 rt3 h2 rt4 where l:
    "resolveCurrent f b net captured lysaker rt2 = (p2, rt3)"
    "resolveHistoric f b net ((current ?n1)(201 \<mapsto> p2)) lysaker rt3 = Inr (h2, rt4)"
    "fetchAll_station f b net captured lysaker (?n1, rt2) =
         Inr (\<lparr> current = (current ?n1)(201 \<mapsto> p2),
                historic = (historic ?n1)(201 \<mapsto> h2) \<rparr>, rt4)"
    using fetchAll_station_Inr[of f b net captured lysaker rt2 ?n1] by auto
  have "fetchAll f b net captured rt =
         Inr (\<lparr> current = (current captured)(101 \<mapsto> p1, 201 \<mapsto> p2),
                historic = (historic captured)(101 \<mapsto> h1, 201 \<mapsto> h2) \<rparr>, rt4)"
    using d(3) l(3) by (simp add: fetchAll_def)
  with d(1,2) l(1,2) show ?thesis by simp
qed


text \<open>
  One run of \<open>fetchAll\<close> on the state it closes over, with payloads of the declared
  types (a reading always has its \<^verbatim>\<open>wind\<close> block). The promise never rejects.
  The new state has a current reading and a series for both stations. Where the
  request for a current reading fails (or no API is configured), the reading stored is
  \<open>simulateCurrent\<close> seeded with the entry of the closed-over state; where the request
  for a series fails, the series stored is \<open>simulateHistoric\<close> of the reading just
  stored. Where a request succeeds, its payload is stored (with the time normalised by
  \<open>toISO\<close> for a reading). The runtimes \<open>rt1\<close> to \<open>rt4\<close> are the random source and the
  clock after each of the four steps.
\<close>

lemma fetchAll_absorbs_failures:
  "\<exists>p1 rt1 h1 rt2 p2 rt3 h2 rt4.
     fetchAll f b net captured rt =
       Inr (\<lparr> current = (current captured)(101 \<mapsto> p1, 201 \<mapsto> p2),
              historic = (historic captured)(101 \<mapsto> h1, 201 \<mapsto> h2) \<rparr>, rt4)
     \<and> (\<not> truthy b \<or> (\<exists>e. fetchJSON (currentReply net 101) = Inl e) \<longrightarrow>
           (p1, rt1) = simulateCurrent f drobak (current captured 101) rt)
     \<and> (\<not> truthy b \<or> (\<exists>e. fetchJSON (historicReply net 101) = Inl e) \<longrightarrow>
           (h1, rt2) = simulateHistoric f p1 180 rt1)
     \<and> (\<not> truthy b \<or> (\<exists>e. fetchJSON (currentReply net 201) = Inl e) \<longrightarrow>
           (p2, rt3) = simulateCurrent f lysaker (current captured 201) rt2)
     \<and> (\<not> truthy b \<or> (\<exists>e. fetchJSON (historicReply net 201) = Inl e) \<longrightarrow>
           (h2, rt4) = simulateHistoric f p2 180 rt3)
     \<and> (\<forall>v. truthy b \<and> fetchJSON (currentReply net 101) = Inr v \<longrightarrow>
           (p1, rt1) = (v\<lparr>dateTime := toISO (dateTime v)\<rparr>, rt))
     \<and> (\<forall>v. truthy b \<and> fetchJSON (historicReply net 101) = Inr v \<longrightarrow> (h1, rt2) = (v, rt1))
     \<and> (\<forall>v. truthy b \<and> fetchJSON (currentReply net 201) = Inr v \<longrightarrow>
           (p2, rt3) = (v\<lparr>dateTime := toISO (dateTime v)\<rparr>, rt2))
     \<and> (\<forall>v. truthy b \<and> fetchJSON (historicReply net 201) = Inr v \<longrightarrow> (h2, rt4) = (v, rt3))"
proof -
  obtain p1 rt1 h1 rt2 p2 rt3 h2 rt4 where
    s1: "resolveCurrent f b net captured drobak rt = (p1, rt1)" and
    s2: "resolveHistoric f b net ((current captured)(101 \<mapsto> p1)) drobak rt1 = Inr (h1, rt2)" and
    s3: "resolveCurrent f b net captured lysaker rt2 = (p2, rt3)" and
    s4: "resolveHistoric f b net ((current captured)(101 \<mapsto> p1, 201 \<mapsto> p2)) lysaker rt3 = Inr (h2, rt4)" and
    s5: "fetchAll f b net captured rt =
         Inr (\<lparr> current = (current captured)(101 \<mapsto> p1, 201 \<mapsto> p2),
                historic = (historic captured)(101 \<mapsto> h1, 201 \<mapsto> h2) \<rparr>, rt4)"
    using fetchAll_steps[of f b net captured rt] by blast
  have a1: "\<not> truthy b \<or> (\<exists>e. fetchJSON (currentReply net 101) = Inl e) \<longrightarrow>
           (p1, rt1) = simulateCurrent f drobak (current captured 101) rt"
    using s1 resolveCurrent_fail[of b net drobak f captured rt] by auto
  have a2: "\<not> truthy b \<or> (\<exists>e. fetchJSON (historicReply net 101) = Inl e) \<longrightarrow>
           (h1, rt2) = simulateHistoric f p1 180 rt1"
    using s2 resolveHistoric_fail[of "(current captured)(101 \<mapsto> p1)" drobak p1 b net f rt1]
    by auto
  have a3: "\<not> truthy b \<or> (\<exists>e. fetchJSON (currentReply net 201) = Inl e) \<longrightarrow>
           (p2, rt3) = simulateCurrent f lysaker (current captured 201) rt2"
    using s3 resolveCurrent_fail[of b net lysaker f captured rt2] by auto
  have a4: "\<not> truthy b \<or> (\<exists>e. fetchJSON (historicReply net 201) = Inl e) \<longrightarrow>
           (h2, rt4) = simulateHistoric f p2 180 rt3"
    using s4 resolveHistoric_fail[of "(current captured)(101 \<mapsto> p1, 201 \<mapsto> p2)" lysaker p2 b net f rt3]
    by auto
  have b1: "\<forall>v. truthy b \<and> fetchJSON (currentReply net 101) = Inr v \<longrightarrow>
           (p1, rt1) = (v\<lparr>dateTime := toISO (dateTime v)\<rparr>, rt)"
    using s1 resolveCurrent_ok[of b net drobak _ f captured rt] by auto
  have b2: "\<forall>v. truthy b \<and> fetchJSON (historicReply net 101) = Inr v \<longrightarrow> (h1, rt2) = (v, rt1)"
    using s2 resolveHistoric_ok[of b net drobak _ f "(current captured)(101 \<mapsto> p1)" rt1] by auto
  have b3: "\<forall>v. truthy b \<and> fetchJSON (currentReply net 201) = Inr v \<longrightarrow>
           (p2, rt3) = (v\<lparr>dateTime := toISO (dateTime v)\<rparr>, rt2)"
    using s3 resolveCurrent_ok[of b net lysaker _ f captured rt2] by auto
  have b4: "\<forall>v. truthy b \<and> fetchJSON (historicReply net 201) = Inr v \<longrightarrow> (h2, rt4) = (v, rt3)"
    using s4 resolveHistoric_ok[of b net lysaker _ f "(current captured)(101 \<mapsto> p1, 201 \<mapsto> p2)" rt3]
    by auto
  from s5 a1 a2 a3 a4 b1 b2 b3 b4 show ?thesis by blast
qed


subsection \<open>The seed across poll cycles\<close>

lemma steady_rand_Math_random: "steady_rand rt \<Longrightarrow> steady_rand (snd (Math_random rt))"
  by (simp add: steady_rand_def Math_random_def)

lemma steady_rand_randBetween [simp]: "steady_rand rt \<Longrightarrow> steady_rand (snd (randBetween lo hi rt))"
  by (simp add: randBetween_def split_def steady_rand_Math_random)

lemma steady_rand_new_Date [simp]: "steady_rand rt \<Longrightarrow> steady_rand (snd (new_Date rt))"
  by (simp add: steady_rand_def new_Date_def)

lemma steady_rand_steady: "steady_rand steady_runtime"
  by (simp add: steady_rand_def steady_runtime_def)

lemma randBetween_steady: "steady_rand rt \<Longrightarrow> fst (randBetween lo hi rt) = (hi - lo) / 2 + lo"
  by (simp add: randBetween_def Math_random_def steady_rand_def)

lemma steady_rand_simulateCurrent:
  "steady_rand rt \<Longrightarrow> steady_rand (snd (simulateCurrent f st prev rt))"
  by (simp add: simulateCurrent_def Let_def split_def split: option.split)

lemma loop_step_snd:
  assumes "0 \<le> i"
  shows "\<exists>S G. snd (simulateHistoric_loop f now i s g rt) =
           snd (simulateHistoric_loop f now (i - 5) S G
                  (snd (randBetween (- 0.4) 0.9 (snd (randBetween (- 0.5) 0.6 rt)))))"
  using assms by (subst simulateHistoric_loop.simps) (simp add: Let_def split_def del: ex_simps, blast)

lemma steady_rand_loop:
  "steady_rand rt \<Longrightarrow> steady_rand (snd (simulateHistoric_loop f now i s g rt))"
proof (induction "nat (i + 1)" arbitrary: i s g rt rule: less_induct)
  case less
  show ?case
  proof (cases "0 \<le> i")
    case False
    then show ?thesis using less.prems by (simp add: loop_neg)
  next
    case True
    obtain S G where st: "snd (simulateHistoric_loop f now i s g rt) =
           snd (simulateHistoric_loop f now (i - 5) S G
                  (snd (randBetween (- 0.4) 0.9 (snd (randBetween (- 0.5) 0.6 rt)))))"
      using loop_step_snd[OF True] by blast
    have m: "nat (i - 5 + 1) < nat (i + 1)" using True by simp
    have "steady_rand (snd (randBetween (- 0.4) 0.9 (snd (randBetween (- 0.5) 0.6 rt))))"
      using less.prems by simp
    from less.hyps[OF m this] show ?thesis unfolding st .
  qed
qed

lemma steady_rand_simulateHistoric:
  "steady_rand rt \<Longrightarrow> steady_rand (snd (simulateHistoric f cur minutes rt))"
  by (simp add: simulateHistoric_def Let_def split_def steady_rand_loop)

lemma steady_rand_resolveCurrent:
  "steady_rand rt \<Longrightarrow> steady_rand (snd (resolveCurrent f b net captured key rt))"
  by (simp add: resolveCurrent_def Let_def steady_rand_simulateCurrent split: sum.split)

lemma steady_rand_simulateHistoric_pair:
  "steady_rand rt \<Longrightarrow> simulateHistoric f cur minutes rt = (h, rt') \<Longrightarrow> steady_rand rt'"
  using steady_rand_simulateHistoric[of rt f cur minutes] by simp

lemma steady_rand_resolveHistoric:
  "steady_rand rt \<Longrightarrow> resolveHistoric f b net nc key rt = Inr (h, rt') \<Longrightarrow> steady_rand rt'"
  by (auto simp: resolveHistoric_def simulateHistoric_of_def Let_def
           split: sum.splits option.splits if_splits
           dest: steady_rand_simulateHistoric_pair)

lemma steady_rand_fetchAll:
  assumes "steady_rand rt" "fetchAll f b net captured rt = Inr (next, rt')"
  shows "steady_rand rt'"
proof -
  obtain p1 rt1 h1 rt2 p2 rt3 h2 rt4 where
    s1: "resolveCurrent f b net captured drobak rt = (p1, rt1)" and
    s2: "resolveHistoric f b net ((current captured)(101 \<mapsto> p1)) drobak rt1 = Inr (h1, rt2)" and
    s3: "resolveCurrent f b net captured lysaker rt2 = (p2, rt3)" and
    s4: "resolveHistoric f b net ((current captured)(101 \<mapsto> p1, 201 \<mapsto> p2)) lysaker rt3 = Inr (h2, rt4)" and
    s5: "fetchAll f b net captured rt =
         Inr (\<lparr> current = (current captured)(101 \<mapsto> p1, 201 \<mapsto> p2),
                historic = (historic captured)(101 \<mapsto> h1, 201 \<mapsto> h2) \<rparr>, rt4)"
    using fetchAll_steps[of f b net captured rt] by blast
  have "steady_rand rt1" using steady_rand_resolveCurrent[OF assms(1), of f b net captured drobak] s1 by simp
  then have "steady_rand rt2" using s2 by (rule steady_rand_resolveHistoric)
  then have "steady_rand rt3" using steady_rand_resolveCurrent[of rt2 f b net captured lysaker] s3 by simp
  then have "steady_rand rt4" using s4 by (rule steady_rand_resolveHistoric)
  then show ?thesis using s5 assms(2) by simp
qed

lemma simulateCurrent_drobak_speed:
  "speed (wind (fst (simulateCurrent f drobak prev rt))) =
     clamp ((case prev of
               Some p \<Rightarrow> speed (wind p)
             | None \<Rightarrow> 5 + fst (randBetween (- 1) 1 (snd (randBetween (- 0.3) 0.9 rt))))
            + fst (randBetween (- 0.3) 0.9 rt)) 0 20"
  by (simp add: simulateCurrent_def Let_def split_def split: option.split)

lemma simulateCurrent_drobak_speed_steady:
  assumes "steady_rand rt"
  shows "speed (wind (fst (simulateCurrent f drobak prev rt))) =
     clamp ((case prev of Some p \<Rightarrow> speed (wind p) | None \<Rightarrow> 5) + 0.3) 0 20"
proof -
  have d: "fst (randBetween (- 0.3) 0.9 rt) = 0.3"
    using randBetween_steady[OF assms, of "- 0.3" "0.9"] by simp
  have r: "fst (randBetween (- 1) 1 (snd (randBetween (- 0.3) 0.9 rt))) = 0"
    using randBetween_steady[of "snd (randBetween (- 0.3) 0.9 rt)" "- 1" 1] assms by simp
  show ?thesis
    unfolding simulateCurrent_drobak_speed d r by (simp split: option.split)
qed

text \<open>
  A call of the registered \<open>fetchAll\<close> does not change what it closes over. As long as
  the effect has not run again, the closed-over state is the empty state of the first
  render, and a failed fetch for Dr\<oslash>bak is replaced by an unseeded simulation,
  whatever reading the hook shows.
\<close>

lemma poll_unseeded:
  assumes "current (closed_over h) 101 = None"
    and "\<not> truthy b \<or> (\<exists>e. fetchJSON (currentReply net 101) = Inl e)"
  shows "\<exists>h' rt'. poll f b net (h, rt) = Inr (h', rt')
           \<and> current (shown h') 101 = Some (fst (simulateCurrent f drobak None rt))
           \<and> closed_over h' = closed_over h"
proof -
  obtain p1 rt1 h1 p2 h2 rt4 where
    s: "fetchAll f b net (closed_over h) rt =
       Inr (\<lparr> current = (current (closed_over h))(101 \<mapsto> p1, 201 \<mapsto> p2),
              historic = (historic (closed_over h))(101 \<mapsto> h1, 201 \<mapsto> h2) \<rparr>, rt4)"
    and a: "\<not> truthy b \<or> (\<exists>e. fetchJSON (currentReply net 101) = Inl e) \<longrightarrow>
           (p1, rt1) = simulateCurrent f drobak (current (closed_over h) 101) rt"
    using fetchAll_absorbs_failures[of f b net "closed_over h" rt] by blast
  have "p1 = fst (simulateCurrent f drobak None rt)"
    using a assms by (metis fst_conv)
  then show ?thesis
    by (simp add: poll_def s)
qed

lemma rerun_effect_closes_over_shown: "closed_over (rerun_effect h) = shown h"
  by (simp add: rerun_effect_def)

text \<open>
  Claim C3. In every poll cycle, for each station, a failed fetch is absorbed: the
  cycle stores \<open>simulateCurrent\<close> seeded with the station's previous current reading in
  place of a failed current fetch and \<open>simulateHistoric\<close> of the fresh reading in
  place of a failed historic fetch, it never propagates an error, and afterwards both
  stations have a current entry and a historic entry.

  For payloads of the declared types, all of this holds of one run of \<open>fetchAll\<close>
  with respect to the state it closes over (\<open>fetchAll_absorbs_failures\<close>). The seed, however, is not the previous reading: the
  timer keeps calling the \<open>fetchAll\<close> of the render in which the effect ran, whose
  \<^verbatim>\<open>current\<close> is empty. Evaluated with an API that cannot be reached and all draws
  \<open>1/2\<close>: the first cycle stores a Dr\<oslash>bak speed of 5.3, and the second cycle stores
  5.3 again, where a simulation seeded with the reading of the first cycle gives 5.6.
\<close>

theorem poll_seed_is_stale:
  "\<exists>h1 rt1 h2 rt2.
     poll sample_formatISO sample_baseUrl unreachable_network (mount, steady_runtime) = Inr (h1, rt1)
     \<and> poll sample_formatISO sample_baseUrl unreachable_network (h1, rt1) = Inr (h2, rt2)
     \<and> map_option (\<lambda>p. speed (wind p)) (current (shown h1) 101) = Some 5.3
     \<and> map_option (\<lambda>p. speed (wind p)) (current (shown h2) 101) = Some 5.3
     \<and> speed (wind (fst (simulateCurrent sample_formatISO drobak (current (shown h1) 101) rt1))) = 5.6"
proof -
  let ?f = sample_formatISO and ?b = sample_baseUrl and ?net = unreachable_network
  have fail: "\<not> truthy ?b \<or> (\<exists>e. fetchJSON (currentReply ?net 101) = Inl e)"
    by (simp add: unreachable_network_def fetchJSON_def)
  have m: "current (closed_over mount) 101 = None"
    by (simp add: mount_def)
  obtain h1 rt1 where p1: "poll ?f ?b ?net (mount, steady_runtime) = Inr (h1, rt1)"
    and c1: "current (shown h1) 101 = Some (fst (simulateCurrent ?f drobak None steady_runtime))"
    and k1: "closed_over h1 = closed_over mount"
    using poll_unseeded[OF m fail, of ?f steady_runtime] by blast
  have st1: "steady_rand rt1"
    using p1 steady_rand_fetchAll[OF steady_rand_steady, of ?f ?b ?net "closed_over mount" _ rt1]
    by (auto simp: poll_def split: sum.splits)
  have m1: "current (closed_over h1) 101 = None"
    using m k1 by simp
  obtain h2 rt2 where p2: "poll ?f ?b ?net (h1, rt1) = Inr (h2, rt2)"
    and c2: "current (shown h2) 101 = Some (fst (simulateCurrent ?f drobak None rt1))"
    using poll_unseeded[OF m1 fail, of ?f rt1] by blast
  have v1: "speed (wind (fst (simulateCurrent ?f drobak None steady_runtime))) = 5.3"
    using simulateCurrent_drobak_speed_steady[OF steady_rand_steady, of ?f None]
    by (simp add: clamp_def)
  have v2: "speed (wind (fst (simulateCurrent ?f drobak None rt1))) = 5.3"
    using simulateCurrent_drobak_speed_steady[OF st1, of ?f None]
    by (simp add: clamp_def)
  have v3: "speed (wind (fst (simulateCurrent ?f drobak (current (shown h1) 101) rt1))) = 5.6"
    unfolding c1 using simulateCurrent_drobak_speed_steady[OF st1, of ?f] v1
    by (simp add: clamp_def)
  from p1 p2 c1 c2 v1 v2 v3 show ?thesis
    by (intro exI[of _ h1] exI[of _ rt1] exI[of _ h2] exI[of _ rt2]) simp
qed

end
